theory Spec2Isabelle
  imports Main "HOL-Library.Char_ord" "HOL-Library.List_Lexorder"
begin

section \<open>Python values used by geradorHorarios.py\<close>

text \<open>
  The script \<^verbatim>\<open>wwwroot/Scripts/geradorHorarios.py\<close> reads six tables, searches a room
  and a block of periods for every section (turma) and writes a linear program as text.
  All identifiers of the tables are modelled as Python ints (\<^typ>\<open>int\<close>); text is
  \<^typ>\<open>string\<close>; a dict is an association list in insertion order with unique keys.
\<close>

subsection \<open>Formatting and reading integers\<close>

definition nl :: string where
  "nl = [CHR 0x0A]"

definition digit_char :: "nat \<Rightarrow> char" where
  "digit_char d = ''0123456789'' ! d"

text \<open>\<^verbatim>\<open>f"{int(n)}"\<close>: decimal digits, with a minus sign for a negative number.\<close>

fun str_nat :: "nat \<Rightarrow> string" where
  "str_nat n = (if n < 10 then [digit_char n] else str_nat (n div 10) @ [digit_char (n mod 10)])"

declare str_nat.simps [simp del]

definition str_int :: "int \<Rightarrow> string" where
  "str_int i = (if i < 0 then CHR ''-'' # str_nat (nat (- i)) else str_nat (nat i))"

datatype failure =
  Missing_unidades_curriculares
  | Missing_semestre
  | TypeError
  | KeyError
  | ValueError

definition is_digit :: "char \<Rightarrow> bool" where
  "is_digit c = (c \<in> set ''0123456789'')"

definition digit_val :: "char \<Rightarrow> nat" where
  "digit_val c = of_char c - 48"

definition nat_of_digits :: "string \<Rightarrow> nat" where
  "nat_of_digits s = foldl (\<lambda>a c. 10 * a + digit_val c) 0 s"

text \<open>
  \<^verbatim>\<open>int(s)\<close> on the texts the script applies it to (an optional minus sign and decimal
  digits); any other text raises ValueError.
\<close>

definition py_int :: "string \<Rightarrow> failure + int" where
  "py_int s =
     (case s of
        [] \<Rightarrow> Inl ValueError
      | c # r \<Rightarrow>
          if c = CHR ''-''
          then (if r \<noteq> [] \<and> list_all is_digit r then Inr (- int (nat_of_digits r)) else Inl ValueError)
          else (if list_all is_digit s then Inr (int (nat_of_digits s)) else Inl ValueError))"

subsection \<open>Lists, slices and joins\<close>

text \<open>\<^verbatim>\<open>sep.join(xs)\<close>.\<close>

fun py_join :: "string \<Rightarrow> string list \<Rightarrow> string" where
  "py_join sep [] = []"
| "py_join sep [x] = x"
| "py_join sep (x # y # ys) = x @ sep @ py_join sep (y # ys)"

text \<open>pandas \<^verbatim>\<open>Series.unique()\<close>: the distinct values in the order of their first appearance.\<close>

definition py_unique :: "'a list \<Rightarrow> 'a list" where
  "py_unique xs = rev (remdups (rev xs))"

text \<open>
  \<^verbatim>\<open>xs[i:j]\<close>: a negative bound counts from the end, and both bounds are clamped to the
  list.
\<close>

definition py_clamp :: "nat \<Rightarrow> int \<Rightarrow> nat" where
  "py_clamp n k = (if k < 0 then nat (max 0 (k + int n)) else min (nat k) n)"

definition py_slice :: "'a list \<Rightarrow> int \<Rightarrow> int \<Rightarrow> 'a list" where
  "py_slice xs i j =
     (let a = py_clamp (length xs) i; b = py_clamp (length xs) j
      in take (b - a) (drop a xs))"

subsection \<open>Dicts\<close>

type_synonym ('k, 'v) dict = "('k \<times> 'v) list"

text \<open>\<^verbatim>\<open>d[k] = v\<close>: an existing key keeps its position, a new key goes last.\<close>

fun dict_set :: "('k, 'v) dict \<Rightarrow> 'k \<Rightarrow> 'v \<Rightarrow> ('k, 'v) dict" where
  "dict_set [] k v = [(k, v)]"
| "dict_set ((k', v') # d) k v =
     (if k' = k then (k', v) # d else (k', v') # dict_set d k v)"

text \<open>\<^verbatim>\<open>dict(zip(ks, vs))\<close>: the last value of a repeated key wins.\<close>

definition dict_zip :: "'k list \<Rightarrow> 'v list \<Rightarrow> ('k, 'v) dict" where
  "dict_zip ks vs = foldl (\<lambda>d kv. dict_set d (fst kv) (snd kv)) [] (zip ks vs)"

text \<open>\<^verbatim>\<open>d.setdefault(k, []).append(v)\<close>.\<close>

definition dict_append :: "('k, 'v list) dict \<Rightarrow> 'k \<Rightarrow> 'v \<Rightarrow> ('k, 'v list) dict" where
  "dict_append d k v =
     (case map_of d k of
        None \<Rightarrow> dict_set d k [v]
      | Some vs \<Rightarrow> dict_set d k (vs @ [v]))"

section \<open>The input tables\<close>

text \<open>A row of the table \<^verbatim>\<open>turmas\<close>, with the columns the script reads.\<close>

record turma_row =
  col_id :: int
  col_unidade_curricular_id :: int
  col_docente_id :: int
  col_tipo_aula_id :: int
  col_duracao :: int
  col_turma_label_id :: int

text \<open>
  The table \<^verbatim>\<open>unidades_curriculares\<close>: its column \<^verbatim>\<open>id\<close>, and its column
  \<^verbatim>\<open>semestre\<close> when the table has one.
\<close>

record uc_frame =
  uc_col_id :: "int list"
  uc_col_semestre :: "int list option"

text \<open>
  The unpickled data: \<^verbatim>\<open>salas\<close> and \<^verbatim>\<open>periodos\<close> are the \<^verbatim>\<open>id\<close> columns of their
  tables, \<^verbatim>\<open>uc_sala\<close> has rows (unidade_curricular_id, sala_id),
  \<^verbatim>\<open>indisponibilidade_docente\<close> has rows (docente_id, periodo_horario_id), and
  \<^verbatim>\<open>unidades_curriculares\<close> is None when the key is missing.
\<close>

record loaded_data =
  turmas :: "turma_row list"
  salas :: "int list"
  periodos :: "int list"
  uc_sala :: "(int \<times> int) list"
  indisponibilidade_docente :: "(int \<times> int) list"
  unidades_curriculares :: "uc_frame option"

section \<open>generate_lp_file\<close>

subsection \<open>The auxiliary dictionaries (lines 50 to 98)\<close>

definition restricoes_entre_ucs :: "(int, int list) dict" where
  "restricoes_entre_ucs =
     [(3, [5]), (5, [3]), (11, [13, 14, 15]), (13, [11]), (14, [11]), (15, [11]),
      (22, [23]), (23, [22])]"

definition uc_semestre :: "uc_frame \<Rightarrow> int list \<Rightarrow> (int, int) dict" where
  "uc_semestre frame semestre = dict_zip (uc_col_id frame) semestre"

definition turma_set :: "loaded_data \<Rightarrow> int list" where
  "turma_set inp = sort (py_unique (map col_id (turmas inp)))"

definition turma_docente :: "loaded_data \<Rightarrow> (int, int) dict" where
  "turma_docente inp = dict_zip (map col_id (turmas inp)) (map col_docente_id (turmas inp))"

definition turma_duracao :: "loaded_data \<Rightarrow> (int, int) dict" where
  "turma_duracao inp = dict_zip (map col_id (turmas inp)) (map col_duracao (turmas inp))"

definition turma_tipo :: "loaded_data \<Rightarrow> (int, int) dict" where
  "turma_tipo inp = dict_zip (map col_id (turmas inp)) (map col_tipo_aula_id (turmas inp))"

definition turma_uc :: "loaded_data \<Rightarrow> (int, int) dict" where
  "turma_uc inp =
     dict_zip (map col_id (turmas inp)) (map col_unidade_curricular_id (turmas inp))"

definition turma_label :: "loaded_data \<Rightarrow> (int, int) dict" where
  "turma_label inp = dict_zip (map col_id (turmas inp)) (map col_turma_label_id (turmas inp))"

text \<open>
  \<^verbatim>\<open>turma_sala[turma_id] = list(set(uc_sala[uc_sala.unidade_curricular_id == uc].sala_id))\<close>.
  The order in which \<^verbatim>\<open>list(set(...))\<close> enumerates a set is the hash table's, which the
  script does not control: it is the parameter \<open>list_set\<close> of the model. The dict is
  read with \<^verbatim>\<open>turma_sala.get(turma_id, [])\<close>.
\<close>

definition turma_sala :: "(int list \<Rightarrow> int list) \<Rightarrow> loaded_data \<Rightarrow> int \<Rightarrow> int list" where
  "turma_sala list_set inp t =
     (case map_of (turma_uc inp) t of
        None \<Rightarrow> []
      | Some u \<Rightarrow> list_set (map snd (filter (\<lambda>r. fst r = u) (uc_sala inp))))"

definition I_d_turma :: "loaded_data \<Rightarrow> int \<Rightarrow> int list" where
  "I_d_turma inp t =
     (case map_of (turma_docente inp) t of
        None \<Rightarrow> []
      | Some d \<Rightarrow> map snd (filter (\<lambda>r. fst r = d) (indisponibilidade_docente inp)))"

definition periodos_ordenados :: "loaded_data \<Rightarrow> int list" where
  "periodos_ordenados inp = sort (py_unique (periodos inp))"

text \<open>\<^verbatim>\<open>turmas[turmas['unidade_curricular_id'] == uc]['id'].tolist()\<close>.\<close>

definition turmas_da_uc :: "loaded_data \<Rightarrow> int \<Rightarrow> int list" where
  "turmas_da_uc inp uc = map col_id (filter (\<lambda>r. col_unidade_curricular_id r = uc) (turmas inp))"

subsection \<open>The state of the allocation pass (lines 106 to 115)\<close>

type_synonym placement = "int \<times> int \<times> int list"

text \<open>
  \<open>lp_written\<close> holds the constraint lines written to the file during the pass, in
  order; \<open>log_agendada\<close> holds the (turma, sala, periodos) of the log line
  \<^verbatim>\<open>Turma ... agendada na sala ... nos periodos ...\<close> of every committed placement.
\<close>

record lp_state =
  lp_written :: "string list"
  written_constraints :: "string set"
  variables :: "string set"
  docente_periodo_vars :: "(int \<times> int, string list) dict"
  sala_periodo_vars :: "(int \<times> int, string list) dict"
  sala_periodos_ocupados :: "(int \<times> int, int) dict"
  docente_periodos_ocupados :: "(int \<times> int, int) dict"
  log_agendada :: "placement list"

definition init_state :: lp_state where
  "init_state =
     \<lparr>lp_written = [], written_constraints = {}, variables = {},
      docente_periodo_vars = [], sala_periodo_vars = [],
      sala_periodos_ocupados = [], docente_periodos_ocupados = [],
      log_agendada = []\<rparr>"

text \<open>The local variables of one iteration of the loop over \<^verbatim>\<open>turma_set\<close> (lines 129 to 134).\<close>

record loop_vars =
  turma_id :: int
  docente_id :: int
  duracao :: int
  label_id :: int
  uc_id :: int
  semestre_atual :: int

subsection \<open>The checks on a candidate block (lines 159 to 209)\<close>

text \<open>Line 160. The indices read are within the block (lemma \<open>consecutivos_in_range\<close>).\<close>

definition consecutivos :: "int list \<Rightarrow> int \<Rightarrow> bool" where
  "consecutivos sequencia_periodos dur =
     list_all (\<lambda>i. sequencia_periodos ! i + 1 = sequencia_periodos ! (i + 1))
       [0 ..< nat (dur - 1)]"

text \<open>Lines 164 to 166.\<close>

definition conflito_sala_docente ::
  "loaded_data \<Rightarrow> lp_state \<Rightarrow> loop_vars \<Rightarrow> int \<Rightarrow> int list \<Rightarrow> bool" where
  "conflito_sala_docente inp st lv sala_id sequencia_periodos =
     (list_ex (\<lambda>p. map_of (sala_periodos_ocupados st) (sala_id, p) \<noteq> None) sequencia_periodos
      \<or> list_ex (\<lambda>p. p \<in> set (I_d_turma inp (turma_id lv))) sequencia_periodos
      \<or> list_ex (\<lambda>p. map_of (docente_periodos_ocupados st) (docente_id lv, p) \<noteq> None)
           sequencia_periodos)"

text \<open>Line 174.\<close>

definition turmas_no_periodo :: "(int \<times> int, int) dict \<Rightarrow> int \<Rightarrow> int list" where
  "turmas_no_periodo ocupados p = map snd (filter (\<lambda>e. snd (fst e) = p) ocupados)"

text \<open>Lines 176 and 177: \<^verbatim>\<open>uc_semestre.get(turma_uc.get(turma_alocada), None)\<close>.\<close>

definition semestre_alocada :: "loaded_data \<Rightarrow> (int, int) dict \<Rightarrow> int \<Rightarrow> int option" where
  "semestre_alocada inp sem turma_alocada =
     (case map_of (turma_uc inp) turma_alocada of
        None \<Rightarrow> None
      | Some uc_alocada \<Rightarrow> map_of sem uc_alocada)"

text \<open>Lines 175 to 181: the inner loop, which stops at the first section of the same semester.\<close>

fun conflito_semestre_turmas :: "loaded_data \<Rightarrow> (int, int) dict \<Rightarrow> int \<Rightarrow> int list \<Rightarrow> bool" where
  "conflito_semestre_turmas inp sem atual [] = False"
| "conflito_semestre_turmas inp sem atual (turma_alocada # rest) =
     (if semestre_alocada inp sem turma_alocada = Some atual then True
      else conflito_semestre_turmas inp sem atual rest)"

text \<open>Lines 171 to 187: the loop over the periods of the block, left at the first conflict.\<close>

fun conflito_semestre ::
  "loaded_data \<Rightarrow> (int, int) dict \<Rightarrow> lp_state \<Rightarrow> int \<Rightarrow> int list \<Rightarrow> bool" where
  "conflito_semestre inp sem st atual [] = False"
| "conflito_semestre inp sem st atual (p # rest) =
     (if conflito_semestre_turmas inp sem atual (turmas_no_periodo (sala_periodos_ocupados st) p)
      then True
      else conflito_semestre inp sem st atual rest)"

text \<open>Lines 170 and 188: only a section with \<^verbatim>\<open>label_id == 1\<close> is checked.\<close>

definition rejeita_semestre ::
  "loaded_data \<Rightarrow> (int, int) dict \<Rightarrow> lp_state \<Rightarrow> loop_vars \<Rightarrow> int list \<Rightarrow> bool" where
  "rejeita_semestre inp sem st lv sequencia_periodos =
     (label_id lv = 1 \<and> conflito_semestre inp sem st (semestre_atual lv) sequencia_periodos)"

text \<open>
  Lines 195 to 207: the flag \<^verbatim>\<open>conflito_entre_ucs\<close> is set when some restricted unit has a
  section that holds some period of the block in some room of the table \<^verbatim>\<open>salas\<close>.
\<close>

definition conflito_entre_ucs :: "loaded_data \<Rightarrow> lp_state \<Rightarrow> int list \<Rightarrow> int list \<Rightarrow> bool" where
  "conflito_entre_ucs inp st ucs_restritas sequencia_periodos =
     list_ex (\<lambda>uc_restrita.
       list_ex (\<lambda>turma_restrita_id.
         list_ex (\<lambda>p.
           list_ex (\<lambda>sala_restrita_id.
               map_of (sala_periodos_ocupados st) (sala_restrita_id, p) = Some turma_restrita_id)
             (salas inp))
           sequencia_periodos)
         (turmas_da_uc inp uc_restrita))
       ucs_restritas"

text \<open>Lines 192 and 208.\<close>

definition rejeita_ucs :: "loaded_data \<Rightarrow> lp_state \<Rightarrow> loop_vars \<Rightarrow> int list \<Rightarrow> bool" where
  "rejeita_ucs inp st lv sequencia_periodos =
     (case map_of restricoes_entre_ucs (uc_id lv) of
        None \<Rightarrow> False
      | Some ucs_restritas \<Rightarrow> conflito_entre_ucs inp st ucs_restritas sequencia_periodos)"

subsection \<open>Committing a block (lines 211 to 249)\<close>

definition var_name :: "int \<Rightarrow> int \<Rightarrow> int \<Rightarrow> string" where
  "var_name t s p = ''x'' @ str_int t @ ''_'' @ str_int s @ ''_'' @ str_int p"

text \<open>Lines 214 to 224, for one period of the block.\<close>

definition reservar :: "loop_vars \<Rightarrow> int \<Rightarrow> lp_state \<Rightarrow> int \<Rightarrow> lp_state" where
  "reservar lv sala_id st period_id =
     st\<lparr>variables := insert (var_name (turma_id lv) sala_id period_id) (variables st),
        sala_periodos_ocupados :=
          dict_set (sala_periodos_ocupados st) (sala_id, period_id) (turma_id lv),
        docente_periodos_ocupados :=
          dict_set (docente_periodos_ocupados st) (docente_id lv, period_id) (turma_id lv),
        docente_periodo_vars :=
          dict_append (docente_periodo_vars st) (docente_id lv, period_id)
            (var_name (turma_id lv) sala_id period_id),
        sala_periodo_vars :=
          dict_append (sala_periodo_vars st) (sala_id, period_id)
            (var_name (turma_id lv) sala_id period_id)\<rparr>"

text \<open>A constraint is written unless the same text was written before.\<close>

definition write_constraint :: "string \<Rightarrow> lp_state \<Rightarrow> lp_state" where
  "write_constraint c st =
     (if c \<notin> written_constraints st
      then st\<lparr>lp_written := lp_written st @ [c],
              written_constraints := insert c (written_constraints st)\<rparr>
      else st)"

definition cont_constraint :: "string \<Rightarrow> string \<Rightarrow> string" where
  "cont_constraint var_start var =
     ''cont_'' @ var_start @ ''_'' @ var @ '': '' @ var_start @ '' - '' @ var @ '' = 0'' @ nl"

definition allocation_constraint :: "int \<Rightarrow> int \<Rightarrow> string list \<Rightarrow> string" where
  "allocation_constraint t dur uc_variables =
     ''turma_'' @ str_int t @ ''_agendada: '' @ py_join '' + '' uc_variables
       @ '' = '' @ str_int dur @ nl"

definition sala_constraint :: "int \<Rightarrow> int \<Rightarrow> int \<Rightarrow> string list \<Rightarrow> string" where
  "sala_constraint s t dur uc_variables =
     ''sala_'' @ str_int s @ ''_uso_para_turma_'' @ str_int t @ '': ''
       @ py_join '' + '' uc_variables @ '' - '' @ str_int dur @ '' z_'' @ str_int s
       @ '' <= 0'' @ nl"

text \<open>Lines 226 to 246: nothing is written for an empty block.\<close>

definition write_block_constraints ::
  "loop_vars \<Rightarrow> int \<Rightarrow> string list \<Rightarrow> lp_state \<Rightarrow> lp_state" where
  "write_block_constraints lv sala_id uc_variables st =
     (if uc_variables \<noteq> []
      then
        (let st1 = foldl (\<lambda>s var. write_constraint (cont_constraint (hd uc_variables) var) s)
                     st (tl uc_variables);
             st2 = write_constraint
                     (allocation_constraint (turma_id lv) (duracao lv) uc_variables) st1
         in write_constraint
              (sala_constraint sala_id (turma_id lv) (duracao lv) uc_variables) st2)
      else st)"

definition alocar :: "loop_vars \<Rightarrow> int \<Rightarrow> int list \<Rightarrow> lp_state \<Rightarrow> lp_state" where
  "alocar lv sala_id sequencia_periodos st =
     (let st1 = foldl (reservar lv sala_id) st sequencia_periodos;
          uc_variables = map (var_name (turma_id lv) sala_id) sequencia_periodos;
          st2 = write_block_constraints lv sala_id uc_variables st1
      in st2\<lparr>log_agendada := log_agendada st2 @ [(turma_id lv, sala_id, sequencia_periodos)]\<rparr>)"

subsection \<open>The search (lines 128 to 261)\<close>

text \<open>Line 157.\<close>

definition sequencia :: "loaded_data \<Rightarrow> loop_vars \<Rightarrow> nat \<Rightarrow> int list" where
  "sequencia inp lv start_period_index =
     py_slice (periodos_ordenados inp) (int start_period_index)
       (int start_period_index + duracao lv)"

text \<open>Line 156: \<^verbatim>\<open>range(len(periodos_ordenados) - duracao + 1)\<close>.\<close>

definition start_indices :: "loaded_data \<Rightarrow> loop_vars \<Rightarrow> nat list" where
  "start_indices inp lv =
     [0 ..< nat (int (length (periodos_ordenados inp)) - duracao lv + 1)]"

text \<open>
  The loop over the start indices for one room: every \<^verbatim>\<open>continue\<close> goes to the next
  index, the \<^verbatim>\<open>break\<close> after a commit leaves the loop with the new state; \<open>None\<close> when the
  loop ends without a commit.
\<close>

fun tentar_periodos ::
  "loaded_data \<Rightarrow> (int, int) dict \<Rightarrow> lp_state \<Rightarrow> loop_vars \<Rightarrow> int \<Rightarrow> nat list \<Rightarrow> lp_state option"
  where
  "tentar_periodos inp sem st lv sala_id [] = None"
| "tentar_periodos inp sem st lv sala_id (start_period_index # rest) =
     (let sequencia_periodos = sequencia inp lv start_period_index
      in if \<not> consecutivos sequencia_periodos (duracao lv)
         then tentar_periodos inp sem st lv sala_id rest
         else if conflito_sala_docente inp st lv sala_id sequencia_periodos
         then tentar_periodos inp sem st lv sala_id rest
         else if rejeita_semestre inp sem st lv sequencia_periodos
         then tentar_periodos inp sem st lv sala_id rest
         else if rejeita_ucs inp st lv sequencia_periodos
         then tentar_periodos inp sem st lv sala_id rest
         else Some (alocar lv sala_id sequencia_periodos st))"

text \<open>The loop over the permitted rooms, left when \<^verbatim>\<open>turma_agendada\<close> is set.\<close>

fun tentar_salas ::
  "loaded_data \<Rightarrow> (int, int) dict \<Rightarrow> lp_state \<Rightarrow> loop_vars \<Rightarrow> int list \<Rightarrow> lp_state option"
  where
  "tentar_salas inp sem st lv [] = None"
| "tentar_salas inp sem st lv (sala_id # rest) =
     (case tentar_periodos inp sem st lv sala_id (start_indices inp lv) of
        Some st' \<Rightarrow> Some st'
      | None \<Rightarrow> tentar_salas inp sem st lv rest)"

text \<open>
  Lines 129 to 139: the lookups for one section. A lookup that returned None would make
  \<^verbatim>\<open>int(...)\<close> raise TypeError (this does not happen for a key of \<^verbatim>\<open>turma_set\<close>,
  lemma \<open>loop_vars_of_total\<close>); a unit without a semester gives \<open>Inr None\<close>, the
  \<^verbatim>\<open>continue\<close> of line 139.
\<close>

definition loop_vars_of ::
  "loaded_data \<Rightarrow> (int, int) dict \<Rightarrow> int \<Rightarrow> failure + loop_vars option" where
  "loop_vars_of inp sem t =
     (case map_of (turma_uc inp) t of
        None \<Rightarrow> Inl TypeError
      | Some uc \<Rightarrow>
          (case map_of sem uc of
             None \<Rightarrow> Inr None
           | Some atual \<Rightarrow>
               (case map_of (turma_docente inp) t of
                  None \<Rightarrow> Inl TypeError
                | Some d \<Rightarrow>
                    (case map_of (turma_duracao inp) t of
                       None \<Rightarrow> Inl TypeError
                     | Some dur \<Rightarrow>
                         Inr (Some \<lparr>turma_id = t, docente_id = d, duracao = dur,
                                    label_id = (case map_of (turma_label inp) t of
                                                  None \<Rightarrow> 0 | Some l \<Rightarrow> l),
                                    uc_id = uc, semestre_atual = atual\<rparr>)))))"

text \<open>
  The body of the loop over \<^verbatim>\<open>turma_set\<close>: a section whose unit has no semester, or
  that has no permitted room, or no surviving block, leaves the state as it was.
\<close>

definition processar_turma ::
  "(int list \<Rightarrow> int list) \<Rightarrow> loaded_data \<Rightarrow> (int, int) dict \<Rightarrow> lp_state \<Rightarrow> int
     \<Rightarrow> failure + lp_state" where
  "processar_turma list_set inp sem st t =
     (case loop_vars_of inp sem t of
        Inl e \<Rightarrow> Inl e
      | Inr None \<Rightarrow> Inr st
      | Inr (Some lv) \<Rightarrow>
          (let salas_permitidas = turma_sala list_set inp t
           in if salas_permitidas = [] then Inr st
              else (case tentar_salas inp sem st lv salas_permitidas of
                      Some st' \<Rightarrow> Inr st'
                    | None \<Rightarrow> Inr st)))"

fun lp_pass ::
  "(int list \<Rightarrow> int list) \<Rightarrow> loaded_data \<Rightarrow> (int, int) dict \<Rightarrow> lp_state \<Rightarrow> int list
     \<Rightarrow> failure + lp_state" where
  "lp_pass list_set inp sem st [] = Inr st"
| "lp_pass list_set inp sem st (t # ts) =
     (case processar_turma list_set inp sem st t of
        Inl e \<Rightarrow> Inl e
      | Inr st' \<Rightarrow> lp_pass list_set inp sem st' ts)"

subsection \<open>The constraints written after the pass (lines 263 to 332)\<close>

text \<open>Lines 278 to 285: a name for every section of the unit and every room of the table.\<close>

definition vars_uc_p_real :: "loaded_data \<Rightarrow> int \<Rightarrow> int \<Rightarrow> string list" where
  "vars_uc_p_real inp uc p =
     concat (map (\<lambda>t. map (\<lambda>s. var_name t s p) (salas inp)) (turmas_da_uc inp uc))"

definition restricao :: "loaded_data \<Rightarrow> string \<Rightarrow> int \<Rightarrow> int \<Rightarrow> int \<Rightarrow> string list" where
  "restricao inp constraint_prefix a b p =
     (if vars_uc_p_real inp a p \<noteq> [] \<or> vars_uc_p_real inp b p \<noteq> []
      then [constraint_prefix @ str_int p @ '': ''
              @ py_join '' + '' (vars_uc_p_real inp a p @ vars_uc_p_real inp b p)
              @ '' <= 1'' @ nl]
      else [])"

definition restricoes_periodo :: "loaded_data \<Rightarrow> int \<Rightarrow> string list" where
  "restricoes_periodo inp p =
     restricao inp ''restricao_UC3_UC5_periodo_'' 3 5 p
     @ restricao inp ''restricao_UC11_UC13_periodo_'' 11 13 p
     @ restricao inp ''restricao_UC11_UC14_periodo_'' 11 14 p
     @ restricao inp ''restricao_UC11_UC15_periodo_'' 11 15 p
     @ restricao inp ''restricao_UC22_UC23_periodo_'' 22 23 p"

definition restricoes_ucs :: "loaded_data \<Rightarrow> string list" where
  "restricoes_ucs inp = concat (map (restricoes_periodo inp) (py_unique (periodos inp)))"

text \<open>Lines 118 to 125: the sections of every unit, split by class type.\<close>

type_synonym uc_groups = "(int, int list \<times> int list) dict"

definition add_to_group :: "uc_groups \<Rightarrow> int \<Rightarrow> int \<Rightarrow> int \<Rightarrow> uc_groups" where
  "add_to_group g uc t tipo_aula =
     (let el = (case map_of g uc of None \<Rightarrow> ([], []) | Some el \<Rightarrow> el)
      in dict_set g uc
           (if tipo_aula \<in> {1, 2} then (fst el @ [t], snd el) else (fst el, snd el @ [t])))"

fun uc_groups_loop :: "loaded_data \<Rightarrow> uc_groups \<Rightarrow> (int \<times> int) list \<Rightarrow> failure + uc_groups" where
  "uc_groups_loop inp g [] = Inr g"
| "uc_groups_loop inp g (kv # rest) =
     (case map_of (turma_tipo inp) (fst kv) of
        None \<Rightarrow> Inl KeyError
      | Some tipo_aula \<Rightarrow> uc_groups_loop inp (add_to_group g (snd kv) (fst kv) tipo_aula) rest)"

text \<open>Lines 314 to 317.\<close>

definition ordem_constraint :: "int \<Rightarrow> int \<Rightarrow> int \<Rightarrow> string" where
  "ordem_constraint uc early_turma_id late_turma_id =
     ''ordem_uc_'' @ str_int uc @ ''_turma_'' @ str_int early_turma_id @ ''_''
       @ str_int late_turma_id @ '': end_'' @ str_int early_turma_id @ '' - start_''
       @ str_int late_turma_id @ '' <= -1'' @ nl"

definition ordem_constraints :: "uc_groups \<Rightarrow> string list" where
  "ordem_constraints g =
     concat (map (\<lambda>e. concat (map (\<lambda>early. map (\<lambda>late. ordem_constraint (fst e) early late)
                                               (snd (snd e)))
                                   (fst (snd e))))
               g)"

text \<open>Lines 323 and 330: \<^verbatim>\<open>int(var.split('_')[0][1:])\<close>.\<close>

definition turma_of_var :: "string \<Rightarrow> failure + int" where
  "turma_of_var var = py_int (drop 1 (takeWhile (\<lambda>c. c \<noteq> CHR ''_'') var))"

text \<open>The list comprehension of lines 323 and 330, with the exceptions it can raise.\<close>

fun vars_filtered :: "loaded_data \<Rightarrow> string list \<Rightarrow> failure + string list" where
  "vars_filtered inp [] = Inr []"
| "vars_filtered inp (var # rest) =
     (case turma_of_var var of
        Inl e \<Rightarrow> Inl e
      | Inr t \<Rightarrow>
          (case map_of (turma_uc inp) t of
             None \<Rightarrow> Inl KeyError
           | Some uc \<Rightarrow>
               (case vars_filtered inp rest of
                  Inl e \<Rightarrow> Inl e
                | Inr r \<Rightarrow> Inr (if uc \<notin> {24, 25} then var # r else r))))"

text \<open>
  Lines 320 to 332, for \<open>who = ''docente_''\<close> over \<^verbatim>\<open>docente_periodo_vars\<close> and for
  \<open>who = ''sala_''\<close> over \<^verbatim>\<open>sala_periodo_vars\<close>.
\<close>

fun conflito_constraints ::
  "loaded_data \<Rightarrow> string \<Rightarrow> (int \<times> int, string list) dict \<Rightarrow> failure + string list" where
  "conflito_constraints inp who [] = Inr []"
| "conflito_constraints inp who (kv # rest) =
     (if length (snd kv) > 1
      then (case vars_filtered inp (snd kv) of
              Inl e \<Rightarrow> Inl e
            | Inr vf \<Rightarrow>
                (case conflito_constraints inp who rest of
                   Inl e \<Rightarrow> Inl e
                 | Inr ls \<Rightarrow>
                     Inr ((if length vf > 1
                           then [who @ str_int (fst (fst kv)) @ ''_periodo_''
                                   @ str_int (snd (fst kv)) @ ''_conflito: ''
                                   @ py_join '' + '' vf @ '' <= 1'' @ nl]
                           else []) @ ls)))
      else conflito_constraints inp who rest)"

subsection \<open>The model file\<close>

text \<open>
  The text written to the output file, part by part in the order of writing, and the
  placements logged during the pass.
\<close>

record lp_model =
  objective :: string
  constraints_turmas :: "string list"
  constraints_ucs :: "string list"
  constraints_ordem :: "string list"
  constraints_docente :: "string list"
  constraints_sala :: "string list"
  binary_x :: "string list"
  binary_z :: "string list"
  agendadas :: "placement list"

definition z_name :: "int \<Rightarrow> string" where
  "z_name sala_id = ''z_'' @ str_int sala_id"

definition build_model ::
  "(int list \<Rightarrow> int list) \<Rightarrow> loaded_data \<Rightarrow> (int, int) dict \<Rightarrow> failure + lp_model" where
  "build_model list_set inp sem =
     (case uc_groups_loop inp [] (turma_uc inp) of
        Inl e \<Rightarrow> Inl e
      | Inr g \<Rightarrow>
     (case lp_pass list_set inp sem init_state (turma_set inp) of
        Inl e \<Rightarrow> Inl e
      | Inr st \<Rightarrow>
     (case conflito_constraints inp ''docente_'' (docente_periodo_vars st) of
        Inl e \<Rightarrow> Inl e
      | Inr cd \<Rightarrow>
     (case conflito_constraints inp ''sala_'' (sala_periodo_vars st) of
        Inl e \<Rightarrow> Inl e
      | Inr cs \<Rightarrow>
          Inr \<lparr>objective = ''Minimize'' @ nl @ '' obj: ''
                   @ py_join '' + '' (map z_name (salas inp)) @ nl,
               constraints_turmas = lp_written st,
               constraints_ucs = restricoes_ucs inp,
               constraints_ordem = ordem_constraints g,
               constraints_docente = cd,
               constraints_sala = cs,
               binary_x = sorted_list_of_set (variables st),
               binary_z = sorted_list_of_set (set (map z_name (salas inp))),
               agendadas = log_agendada st\<rparr>))))"

text \<open>
  Lines 37 to 78: without the table of curricular units, or without its column
  \<^verbatim>\<open>semestre\<close>, the function logs an error and returns before it opens the output file.
\<close>

definition generate_lp_file :: "(int list \<Rightarrow> int list) \<Rightarrow> loaded_data \<Rightarrow> failure + lp_model" where
  "generate_lp_file list_set inp =
     (case unidades_curriculares inp of
        None \<Rightarrow> Inl Missing_unidades_curriculares
      | Some frame \<Rightarrow>
          (case uc_col_semestre frame of
             None \<Rightarrow> Inl Missing_semestre
           | Some semestre \<Rightarrow> build_model list_set inp (uc_semestre frame semestre)))"

text \<open>All constraint lines of the file, in the order of writing.\<close>

definition constraint_lines :: "lp_model \<Rightarrow> string list" where
  "constraint_lines m =
     constraints_turmas m @ constraints_ucs m @ constraints_ordem m
       @ constraints_docente m @ constraints_sala m"

definition lp_text :: "lp_model \<Rightarrow> string" where
  "lp_text m =
     objective m @ nl @ ''Subject To'' @ nl @ concat (constraint_lines m)
       @ nl @ ''Binary'' @ nl
       @ concat (map (\<lambda>v. '' '' @ v @ nl) (binary_x m @ binary_z m))
       @ ''End'' @ nl"

text \<open>The name of a constraint line: its text before the colon.\<close>

definition constraint_name :: "string \<Rightarrow> string" where
  "constraint_name line = takeWhile (\<lambda>c. c \<noteq> CHR '':'') line"

text \<open>
  An enumeration order of the kind a hash set has: by table slot. For at most four
  non-negative ints with different residues modulo 8 this is the order in which CPython
  enumerates \<^verbatim>\<open>set(xs)\<close> (a table of 8 slots, an int hashed to itself).
\<close>

definition slot_order :: "int list \<Rightarrow> int list" where
  "slot_order xs = sort_key (\<lambda>x. x mod 8) (py_unique xs)"

section \<open>The specification's words\<close>

text \<open>
  The definitions of this section follow the specification (sections 4.2 to 4.4), to be
  compared with the functions above, which follow the script.
\<close>

text \<open>
  Section 4.3, step 2: the candidates of a section, room by room in the order of the
  rooms given, and for each room by start index over the sorted periods.
\<close>

definition candidatos :: "loaded_data \<Rightarrow> loop_vars \<Rightarrow> int list \<Rightarrow> (int \<times> int list) list" where
  "candidatos inp lv rooms =
     concat (map (\<lambda>s. map (\<lambda>i. (s, sequencia inp lv i)) (start_indices inp lv)) rooms)"

text \<open>Section 4.3, step 3: a candidate survives when no check rejects it.\<close>

definition sobrevive ::
  "loaded_data \<Rightarrow> (int, int) dict \<Rightarrow> lp_state \<Rightarrow> loop_vars \<Rightarrow> int \<times> int list \<Rightarrow> bool" where
  "sobrevive inp sem st lv c =
     (consecutivos (snd c) (duracao lv)
      \<and> \<not> conflito_sala_docente inp st lv (fst c) (snd c)
      \<and> \<not> rejeita_semestre inp sem st lv (snd c)
      \<and> \<not> rejeita_ucs inp st lv (snd c))"

text \<open>Section 4.3, step 4: first fit.\<close>

definition first_fit ::
  "(int list \<Rightarrow> int list) \<Rightarrow> loaded_data \<Rightarrow> (int, int) dict \<Rightarrow> lp_state \<Rightarrow> loop_vars
     \<Rightarrow> (int \<times> int list) option" where
  "first_fit list_set inp sem st lv =
     find (sobrevive inp sem st lv) (candidatos inp lv (turma_sala list_set inp (turma_id lv)))"

text \<open>
  Section 4.4: the three constraint families of a placement over the block
  \<open>p1 # ps\<close>: continuity, full allocation, room-usage linkage.
\<close>

definition block_lines :: "int \<Rightarrow> int \<Rightarrow> int \<Rightarrow> int \<Rightarrow> int list \<Rightarrow> string list" where
  "block_lines t s d p1 ps =
     map (\<lambda>p. cont_constraint (var_name t s p1) (var_name t s p)) ps
     @ [allocation_constraint t d (map (var_name t s) (p1 # ps)),
        sala_constraint s t d (map (var_name t s) (p1 # ps))]"

text \<open>The lines of a placement; an empty block has none.\<close>

definition placement_lines :: "loaded_data \<Rightarrow> placement \<Rightarrow> string list" where
  "placement_lines inp pl =
     (case snd (snd pl) of
        [] \<Rightarrow> []
      | p1 # ps \<Rightarrow>
          (case map_of (turma_duracao inp) (fst pl) of
             None \<Rightarrow> []
           | Some d \<Rightarrow> block_lines (fst pl) (fst (snd pl)) d p1 ps))"

section \<open>Definitions used in the proofs\<close>

text \<open>The state after the first \<open>n\<close> sections of \<^verbatim>\<open>turma_set\<close> were processed.\<close>

definition estado_apos ::
  "(int list \<Rightarrow> int list) \<Rightarrow> loaded_data \<Rightarrow> (int, int) dict \<Rightarrow> nat \<Rightarrow> failure + lp_state" where
  "estado_apos ls inp sem n = lp_pass ls inp sem init_state (take n (turma_set inp))"

text \<open>Every key of the two dicts of variables holds at most one variable name.\<close>

definition uma_variavel_por_chave :: "lp_state \<Rightarrow> bool" where
  "uma_variavel_por_chave st =
     (list_all (\<lambda>kv. length (snd kv) \<le> 1) (docente_periodo_vars st)
      \<and> list_all (\<lambda>kv. length (snd kv) \<le> 1) (sala_periodo_vars st))"

text \<open>
  An input with three sections of the units 3 and 5, which exclude each other: section 1
  is placed in room 1 over the periods 1 and 2, section 2 in room 2 over the periods 3
  and 4 (its teacher is unavailable in period 1, and period 2 is held by unit 3), and
  section 3 finds no block. Section 4 has no permitted room, and the unit of section 5
  has no semester.
\<close>

definition exemplo :: loaded_data where
  "exemplo =
     \<lparr>turmas =
        [\<lparr>col_id = 1, col_unidade_curricular_id = 3, col_docente_id = 7, col_tipo_aula_id = 1,
          col_duracao = 2, col_turma_label_id = 1\<rparr>,
         \<lparr>col_id = 2, col_unidade_curricular_id = 5, col_docente_id = 8, col_tipo_aula_id = 3,
          col_duracao = 2, col_turma_label_id = 2\<rparr>,
         \<lparr>col_id = 3, col_unidade_curricular_id = 3, col_docente_id = 7, col_tipo_aula_id = 3,
          col_duracao = 1, col_turma_label_id = 2\<rparr>,
         \<lparr>col_id = 4, col_unidade_curricular_id = 9, col_docente_id = 9, col_tipo_aula_id = 1,
          col_duracao = 1, col_turma_label_id = 2\<rparr>,
         \<lparr>col_id = 5, col_unidade_curricular_id = 10, col_docente_id = 9, col_tipo_aula_id = 1,
          col_duracao = 1, col_turma_label_id = 2\<rparr>],
      salas = [1, 2],
      periodos = [1, 2, 3, 4],
      uc_sala = [(3, 1), (3, 2), (5, 2), (10, 1)],
      indisponibilidade_docente = [(8, 1)],
      unidades_curriculares =
        Some \<lparr>uc_col_id = [3, 5, 9], uc_col_semestre = Some [1, 1, 2]\<rparr>\<rparr>"

definition exemplo_sem :: "(int, int) dict" where
  "exemplo_sem =
     uc_semestre \<lparr>uc_col_id = [3, 5, 9], uc_col_semestre = Some [1, 1, 2]\<rparr> [1, 1, 2]"






text \<open>The units \<open>a\<close> and \<open>b\<close> are a pair of the table \<^verbatim>\<open>restricoes_entre_ucs\<close>.\<close>

definition excluem :: "int \<Rightarrow> int \<Rightarrow> bool" where
  "excluem a b =
     (case map_of restricoes_entre_ucs a of None \<Rightarrow> False | Some bs \<Rightarrow> b \<in> set bs)"

text \<open>Two placements of sections whose units exclude each other share no period.\<close>

definition sem_sobreposicao_ucs :: "loaded_data \<Rightarrow> placement \<Rightarrow> placement \<Rightarrow> bool" where
  "sem_sobreposicao_ucs inp pl pl' =
     (case map_of (turma_uc inp) (fst pl) of
        None \<Rightarrow> True
      | Some a \<Rightarrow>
          (case map_of (turma_uc inp) (fst pl') of
             None \<Rightarrow> True
           | Some b \<Rightarrow> excluem a b \<longrightarrow> set (snd (snd pl)) \<inter> set (snd (snd pl')) = {}))"

text \<open>Every room permitted for a section is a room of the table \<^verbatim>\<open>salas\<close>.\<close>

definition salas_na_tabela :: "(int list \<Rightarrow> int list) \<Rightarrow> loaded_data \<Rightarrow> bool" where
  "salas_na_tabela ls inp =
     list_all (\<lambda>t. list_all (\<lambda>s. s \<in> set (salas inp)) (turma_sala ls inp t)) (turma_set inp)"

text \<open>
  Some placement in a room of the table \<^verbatim>\<open>salas\<close>, of a section of a unit of the group
  \<open>ucs\<close>, holds a period of the block.
\<close>

definition ocupado_por_ucs :: "loaded_data \<Rightarrow> lp_state \<Rightarrow> int list \<Rightarrow> int list \<Rightarrow> bool" where
  "ocupado_por_ucs inp st ucs seq =
     list_ex (\<lambda>pl. fst (snd pl) \<in> set (salas inp)
                   \<and> list_ex (\<lambda>uc. fst pl \<in> set (turmas_da_uc inp uc)) ucs
                   \<and> set seq \<inter> set (snd (snd pl)) \<noteq> {})
       (log_agendada st)"

text \<open>
  The units 3 and 5 exclude each other; the rooms 1 and 2 permitted for them are not in
  the table \<^verbatim>\<open>salas\<close>, whose only room is 5.
\<close>

definition exemplo_sala_fora :: loaded_data where
  "exemplo_sala_fora =
     \<lparr>turmas =
        [\<lparr>col_id = 1, col_unidade_curricular_id = 3, col_docente_id = 7, col_tipo_aula_id = 1,
          col_duracao = 1, col_turma_label_id = 2\<rparr>,
         \<lparr>col_id = 2, col_unidade_curricular_id = 5, col_docente_id = 8, col_tipo_aula_id = 1,
          col_duracao = 1, col_turma_label_id = 2\<rparr>],
      salas = [5],
      periodos = [1],
      uc_sala = [(3, 1), (5, 2)],
      indisponibilidade_docente = [],
      unidades_curriculares = Some \<lparr>uc_col_id = [3, 5], uc_col_semestre = Some [1, 2]\<rparr>\<rparr>"

text \<open>
  Some placement of a section whose unit has the semester \<open>atual\<close> holds a period of the
  block, in any room.
\<close>

definition ocupado_mesmo_semestre ::
  "loaded_data \<Rightarrow> (int, int) dict \<Rightarrow> lp_state \<Rightarrow> int \<Rightarrow> int list \<Rightarrow> bool" where
  "ocupado_mesmo_semestre inp sem st atual seq =
     list_ex (\<lambda>pl. set seq \<inter> set (snd (snd pl)) \<noteq> {}
                   \<and> semestre_alocada inp sem (fst pl) = Some atual)
       (log_agendada st)"

text \<open>
  Two units of semester 1; section 2 has the label 1 and cannot take period 1, which
  section 1 holds in another room.
\<close>

definition exemplo_semestre :: loaded_data where
  "exemplo_semestre =
     \<lparr>turmas =
        [\<lparr>col_id = 1, col_unidade_curricular_id = 1, col_docente_id = 1, col_tipo_aula_id = 1,
          col_duracao = 1, col_turma_label_id = 2\<rparr>,
         \<lparr>col_id = 2, col_unidade_curricular_id = 2, col_docente_id = 2, col_tipo_aula_id = 1,
          col_duracao = 1, col_turma_label_id = 1\<rparr>],
      salas = [1, 2],
      periodos = [1, 2],
      uc_sala = [(1, 1), (2, 2)],
      indisponibilidade_docente = [],
      unidades_curriculares = Some \<lparr>uc_col_id = [1, 2], uc_col_semestre = Some [1, 1]\<rparr>\<rparr>"

definition exemplo_semestre_sem :: "(int, int) dict" where
  "exemplo_semestre_sem =
     uc_semestre \<lparr>uc_col_id = [1, 2], uc_col_semestre = Some [1, 1]\<rparr> [1, 1]"

text \<open>
  \<open>ls\<close> enumerates a set: every element once, in some order. This is all that
  \<^verbatim>\<open>list(set(xs))\<close> promises.
\<close>

definition enumera_conjunto :: "(int list \<Rightarrow> int list) \<Rightarrow> bool" where
  "enumera_conjunto ls = (\<forall>xs. distinct (ls xs) \<and> set (ls xs) = set xs)"

text \<open>The rooms that the rows of \<^verbatim>\<open>uc_sala\<close> permit for the unit of a section.\<close>

definition salas_da_turma :: "loaded_data \<Rightarrow> int \<Rightarrow> int set" where
  "salas_da_turma inp t =
     (case map_of (turma_uc inp) t of
        None \<Rightarrow> {}
      | Some u \<Rightarrow> snd ` {r \<in> set (uc_sala inp). fst r = u})"

text \<open>One section whose unit may use the rooms 1 and 8.\<close>

definition exemplo_salas :: loaded_data where
  "exemplo_salas =
     \<lparr>turmas =
        [\<lparr>col_id = 1, col_unidade_curricular_id = 3, col_docente_id = 7, col_tipo_aula_id = 1,
          col_duracao = 1, col_turma_label_id = 2\<rparr>],
      salas = [1, 8],
      periodos = [1],
      uc_sala = [(3, 1), (3, 8)],
      indisponibilidade_docente = [],
      unidades_curriculares = Some \<lparr>uc_col_id = [3], uc_col_semestre = Some [1]\<rparr>\<rparr>"

text \<open>
  The variable names that a constraint line refers to: the words after the colon that
  start with \<open>x\<close> or \<open>z\<close>.
\<close>

fun py_words :: "string \<Rightarrow> string \<Rightarrow> string list" where
  "py_words w [] = (if w = [] then [] else [w])"
| "py_words w (c # r) =
     (if c = CHR '' '' \<or> c = CHR 0x0A
      then (if w = [] then py_words [] r else w # py_words [] r)
      else py_words (w @ [c]) r)"

definition referenced :: "string \<Rightarrow> string list" where
  "referenced line =
     filter (\<lambda>w. hd w = CHR ''x'' \<or> hd w = CHR ''z'')
       (py_words [] (drop 1 (dropWhile (\<lambda>c. c \<noteq> CHR '':'') line)))"

text \<open>One step of the pass: the state is kept, or one surviving candidate is committed.\<close>

definition aceite ::
  "(int list \<Rightarrow> int list) \<Rightarrow> loaded_data \<Rightarrow> (int, int) dict \<Rightarrow> lp_state \<Rightarrow> int \<Rightarrow> loop_vars
     \<Rightarrow> int \<times> int list \<Rightarrow> bool" where
  "aceite ls inp sem st t lv c =
     (loop_vars_of inp sem t = Inr (Some lv)
      \<and> c \<in> set (candidatos inp lv (turma_sala ls inp t))
      \<and> sobrevive inp sem st lv c)"

definition cont_name :: "int \<Rightarrow> int \<Rightarrow> int \<Rightarrow> int \<Rightarrow> string" where
  "cont_name t s p1 p = ''cont_'' @ var_name t s p1 @ ''_'' @ var_name t s p"

definition allocation_name :: "int \<Rightarrow> string" where
  "allocation_name t = ''turma_'' @ str_int t @ ''_agendada''"

definition sala_name :: "int \<Rightarrow> int \<Rightarrow> string" where
  "sala_name s t = ''sala_'' @ str_int s @ ''_uso_para_turma_'' @ str_int t"

definition write_all :: "string list \<Rightarrow> lp_state \<Rightarrow> lp_state" where
  "write_all cs st = foldl (\<lambda>s c. write_constraint c s) st cs"

definition inv_ids :: "int list \<Rightarrow> lp_state \<Rightarrow> bool" where
  "inv_ids us st =
     (fst ` set (log_agendada st) \<subseteq> set us \<and> distinct (map fst (log_agendada st)))"

definition inv_occ :: "loaded_data \<Rightarrow> lp_state \<Rightarrow> bool" where
  "inv_occ inp st =
     (distinct (map fst (sala_periodos_ocupados st))
      \<and> (\<forall>pl \<in> set (log_agendada st). \<forall>p \<in> set (snd (snd pl)).
            map_of (sala_periodos_ocupados st) (fst (snd pl), p) = Some (fst pl))
      \<and> (\<forall>s p t. map_of (sala_periodos_ocupados st) (s, p) = Some t \<longrightarrow>
            (\<exists>seq. (t, s, seq) \<in> set (log_agendada st) \<and> p \<in> set seq))
      \<and> (\<forall>pl \<in> set (log_agendada st). \<forall>p \<in> set (snd (snd pl)). \<forall>d.
            map_of (turma_docente inp) (fst pl) = Some d \<longrightarrow>
            map_of (docente_periodos_ocupados st) (d, p) \<noteq> None))"

definition inv_lines :: "loaded_data \<Rightarrow> lp_state \<Rightarrow> bool" where
  "inv_lines inp st =
     (lp_written st = concat (map (placement_lines inp) (log_agendada st))
      \<and> written_constraints st = set (lp_written st))"

definition inv_shape ::
  "(int list \<Rightarrow> int list) \<Rightarrow> loaded_data \<Rightarrow> (int, int) dict \<Rightarrow> lp_state \<Rightarrow> bool" where
  "inv_shape ls inp sem st =
     (\<forall>pl \<in> set (log_agendada st). \<exists>lv.
        loop_vars_of inp sem (fst pl) = Inr (Some lv)
        \<and> snd pl \<in> set (candidatos inp lv (turma_sala ls inp (fst pl)))
        \<and> consecutivos (snd (snd pl)) (duracao lv))"

definition pvars_ok :: "lp_state \<Rightarrow> bool" where
  "pvars_ok st =
     (fst ` set (docente_periodo_vars st) \<subseteq> fst ` set (docente_periodos_ocupados st)
      \<and> fst ` set (sala_periodo_vars st) \<subseteq> fst ` set (sala_periodos_ocupados st)
      \<and> (\<forall>kv \<in> set (docente_periodo_vars st). length (snd kv) \<le> 1)
      \<and> (\<forall>kv \<in> set (sala_periodo_vars st). length (snd kv) \<le> 1))"

definition inv_vars :: "lp_state \<Rightarrow> bool" where
  "inv_vars st =
     (variables st =
        (\<Union>pl \<in> set (log_agendada st). var_name (fst pl) (fst (snd pl)) ` set (snd (snd pl)))
      \<and> pvars_ok st)"

definition inv_all ::
  "(int list \<Rightarrow> int list) \<Rightarrow> loaded_data \<Rightarrow> (int, int) dict \<Rightarrow> int list \<Rightarrow> lp_state \<Rightarrow> bool" where
  "inv_all ls inp sem us st =
     (inv_ids us st \<and> inv_occ inp st \<and> inv_shape ls inp sem st \<and> inv_lines inp st
      \<and> inv_vars st)"

definition ordem_name :: "int \<Rightarrow> int \<Rightarrow> int \<Rightarrow> string" where
  "ordem_name uc early late =
     ''ordem_uc_'' @ str_int uc @ ''_turma_'' @ str_int early @ ''_'' @ str_int late"

text \<open>The five name prefixes of lines 290 to 310.\<close>

definition prefixos_restricao :: "string list" where
  "prefixos_restricao =
     [''restricao_UC3_UC5_periodo_'', ''restricao_UC11_UC13_periodo_'',
      ''restricao_UC11_UC14_periodo_'', ''restricao_UC11_UC15_periodo_'',
      ''restricao_UC22_UC23_periodo_'']"

text \<open>In the groups every key occurs once and every section at most once in its lists.\<close>

definition groups_ok :: "uc_groups \<Rightarrow> bool" where
  "groups_ok g =
     (distinct (map fst g)
      \<and> (\<forall>e \<in> set g. distinct (fst (snd e)) \<and> distinct (snd (snd e))))"

definition group_ids :: "uc_groups \<Rightarrow> int set" where
  "group_ids g = (\<Union>e \<in> set g. set (fst (snd e)) \<union> set (snd (snd e)))"

section \<open>Lemmas\<close>

section \<open>Properties and example inputs\<close>

lemma digit_char_cases:
  "d < 10 \<Longrightarrow> d = 0 \<or> d = 1 \<or> d = 2 \<or> d = 3 \<or> d = 4 \<or> d = 5 \<or> d = 6 \<or> d = 7 \<or> d = 8 \<or> d = (9::nat)"
  by arith

lemma is_digit_digit_char: "d < 10 \<Longrightarrow> is_digit (digit_char d)"
  using digit_char_cases [of d] by (auto simp: is_digit_def digit_char_def)

lemma digit_val_digit_char: "d < 10 \<Longrightarrow> digit_val (digit_char d) = d"
  using digit_char_cases [of d] by (auto simp: digit_val_def digit_char_def)

lemma str_nat_not_Nil: "str_nat n \<noteq> []"
  by (subst str_nat.simps) simp

lemma str_nat_digits: "list_all is_digit (str_nat n)"
proof (induction n rule: str_nat.induct)
  case (1 n)
  show ?case
  proof (cases "n < 10")
    case True
    then show ?thesis by (subst str_nat.simps) (simp add: is_digit_digit_char)
  next
    case False
    with 1 show ?thesis by (subst str_nat.simps) (simp add: is_digit_digit_char)
  qed
qed

lemma nat_of_digits_snoc: "nat_of_digits (s @ [c]) = 10 * nat_of_digits s + digit_val c"
  by (simp add: nat_of_digits_def)

lemma nat_of_digits_str_nat: "nat_of_digits (str_nat n) = n"
proof (induction n rule: str_nat.induct)
  case (1 n)
  show ?case
  proof (cases "n < 10")
    case True
    then show ?thesis
      by (subst str_nat.simps) (simp add: nat_of_digits_def digit_val_digit_char)
  next
    case False
    with 1 have "nat_of_digits (str_nat (n div 10)) = n div 10" by simp
    with False show ?thesis
      by (subst str_nat.simps) (simp add: nat_of_digits_snoc digit_val_digit_char)
  qed
qed

lemma str_nat_inj: "str_nat m = str_nat n \<Longrightarrow> m = n"
  by (metis nat_of_digits_str_nat)

lemma is_digit_not_minus: "is_digit c \<Longrightarrow> c \<noteq> CHR ''-''"
  by (auto simp: is_digit_def)

lemma hd_str_nat_not_minus: "str_nat n \<noteq> CHR ''-'' # r"
proof
  assume "str_nat n = CHR ''-'' # r"
  with str_nat_digits [of n] have "is_digit (CHR ''-'')" by simp
  then show False by (simp add: is_digit_def)
qed

lemma py_int_str_int: "py_int (str_int i) = Inr i"
proof (cases "i < 0")
  case True
  then show ?thesis
    by (simp add: py_int_def str_int_def str_nat_not_Nil str_nat_digits nat_of_digits_str_nat)
next
  case False
  obtain c r where cr: "str_nat (nat i) = c # r"
    using str_nat_not_Nil [of "nat i"] by (cases "str_nat (nat i)") auto
  have "c \<noteq> CHR ''-''" using hd_str_nat_not_minus [of "nat i"] cr by auto
  moreover have "list_all is_digit (c # r)" using str_nat_digits [of "nat i"] cr by simp
  moreover have "nat_of_digits (c # r) = nat i" using nat_of_digits_str_nat [of "nat i"] cr by simp
  ultimately show ?thesis using False cr
    by (simp add: py_int_def str_int_def)
qed

lemma str_int_inj: "str_int i = str_int j \<Longrightarrow> i = j"
proof -
  assume "str_int i = str_int j"
  then have "py_int (str_int i) = py_int (str_int j)" by simp
  then show "i = j" by (simp add: py_int_str_int)
qed

lemma str_int_chars: "c \<in> set (str_int i) \<Longrightarrow> is_digit c \<or> c = CHR ''-''"
  using str_nat_digits [of "nat i"] str_nat_digits [of "nat (- i)"]
  by (auto simp: str_int_def list_all_iff split: if_splits)

lemma str_int_no_underscore [simp]: "CHR ''_'' \<notin> set (str_int i)"
  using str_int_chars [of "CHR ''_''" i] by (auto simp: is_digit_def)

lemma str_int_no_colon [simp]: "CHR '':'' \<notin> set (str_int i)"
  using str_int_chars [of "CHR '':''" i] by (auto simp: is_digit_def)

lemma str_int_not_Nil [simp]: "str_int i \<noteq> []"
  by (simp add: str_int_def str_nat_not_Nil)

text \<open>Two texts that agree up to a separator that neither prefix contains.\<close>

lemma split_at_sep:
  "c \<notin> set u \<Longrightarrow> c \<notin> set v \<Longrightarrow> u @ c # r = v @ c # r' \<Longrightarrow> u = v \<and> r = r'"
proof (induction u arbitrary: v)
  case Nil
  then show ?case by (cases v) auto
next
  case (Cons a u)
  then show ?case by (cases v) auto
qed

lemma str_int_sep:
  "str_int i @ CHR ''_'' # r = str_int j @ CHR ''_'' # r' \<Longrightarrow> i = j \<and> r = r'"
  using split_at_sep [of "CHR ''_''" "str_int i" "str_int j" r r'] str_int_inj by auto

lemma str_int_eq_iff [simp]: "(str_int i = str_int j) = (i = j)"
  using str_int_inj by blast

lemma str_int_sep_iff [simp]:
  "(str_int i @ CHR ''_'' # r = str_int j @ CHR ''_'' # r') = (i = j \<and> r = r')"
  using str_int_sep by blast

lemma str_int_colon_iff [simp]:
  "(str_int i @ CHR '':'' # r = str_int j @ CHR '':'' # r') = (i = j \<and> r = r')"
  using split_at_sep [of "CHR '':''" "str_int i" "str_int j" r r'] by auto

lemma var_name_inj:
  "var_name t s p = var_name t' s' p' \<Longrightarrow> t = t' \<and> s = s' \<and> p = p'"
  by (simp add: var_name_def)

lemma map_of_dict_set: "map_of (dict_set d k v) = (map_of d)(k \<mapsto> v)"
  by (induction d k v rule: dict_set.induct) (auto simp: fun_eq_iff)

lemma keys_dict_set:
  "map fst (dict_set d k v) = (if k \<in> fst ` set d then map fst d else map fst d @ [k])"
  by (induction d k v rule: dict_set.induct) (auto simp: image_iff)

lemma distinct_keys_dict_set:
  "distinct (map fst d) \<Longrightarrow> distinct (map fst (dict_set d k v))"
  by (simp add: keys_dict_set)

lemma set_keys_dict_set: "fst ` set (dict_set d k v) = insert k (fst ` set d)"
  by (induction d k v rule: dict_set.induct) auto

lemma dict_items_map_of:
  "distinct (map fst d) \<Longrightarrow> ((k, v) \<in> set d) = (map_of d k = Some v)"
  by (auto dest: map_of_SomeD)

text \<open>dict(zip(ks, vs)), from any starting dict.\<close>

lemma dict_fold_distinct:
  "distinct (map fst d) \<Longrightarrow>
   distinct (map fst (foldl (\<lambda>d kv. dict_set d (fst kv) (snd kv)) d kvs))"
  by (induction kvs arbitrary: d) (auto simp: distinct_keys_dict_set)

lemma dict_fold_keys:
  "fst ` set (foldl (\<lambda>d kv. dict_set d (fst kv) (snd kv)) d kvs) = fst ` set d \<union> fst ` set kvs"
  by (induction kvs arbitrary: d) (auto simp: set_keys_dict_set)

lemma dict_fold_lookup:
  "map_of (foldl (\<lambda>d kv. dict_set d (fst kv) (snd kv)) d kvs) k = Some v \<Longrightarrow>
   map_of d k = Some v \<or> (k, v) \<in> set kvs"
proof (induction kvs arbitrary: d)
  case Nil
  then show ?case by simp
next
  case (Cons kv kvs)
  from Cons.IH [OF Cons.prems [simplified]]
  show ?case by (cases kv) (auto simp: map_of_dict_set split: if_splits)
qed

lemma distinct_dict_zip: "distinct (map fst (dict_zip ks vs))"
  by (simp add: dict_zip_def dict_fold_distinct)

lemma keys_dict_zip:
  assumes "length ks = length vs"
  shows "fst ` set (dict_zip ks vs) = set ks"
proof -
  have "fst ` set (zip ks vs) = set (map fst (zip ks vs))" by simp
  also have "\<dots> = set ks" using assms by (simp only: map_fst_zip)
  finally show ?thesis by (simp add: dict_zip_def dict_fold_keys)
qed

lemma dict_zip_lookup: "map_of (dict_zip ks vs) k = Some v \<Longrightarrow> (k, v) \<in> set (zip ks vs)"
  using dict_fold_lookup [of "[]" "zip ks vs" k v] by (simp add: dict_zip_def)

lemma dict_zip_defined:
  assumes "length ks = length vs" "k \<in> set ks"
  shows "\<exists>v. map_of (dict_zip ks vs) k = Some v"
proof -
  from assms have "k \<in> fst ` set (dict_zip ks vs)" by (simp add: keys_dict_zip)
  then have "k \<in> dom (map_of (dict_zip ks vs))" by (simp only: dom_map_of_conv_image_fst)
  then show ?thesis by blast
qed

text \<open>The dictionaries of the table turmas.\<close>

lemma zip_columns:
  "(t, v) \<in> set (zip (map g rows) (map f rows)) \<Longrightarrow> \<exists>r \<in> set rows. g r = t \<and> f r = v"
  by (induction rows) auto

lemma dict_zip_column:
  "map_of (dict_zip (map col_id rows) (map f rows)) t = Some v \<Longrightarrow>
   \<exists>r \<in> set rows. col_id r = t \<and> f r = v"
proof -
  assume "map_of (dict_zip (map col_id rows) (map f rows)) t = Some v"
  then have "(t, v) \<in> set (zip (map col_id rows) (map f rows))" by (rule dict_zip_lookup)
  then show ?thesis by (rule zip_columns)
qed

lemma dict_zip_column_defined:
  "t \<in> col_id ` set rows \<Longrightarrow> \<exists>v. map_of (dict_zip (map col_id rows) (map f rows)) t = Some v"
  by (rule dict_zip_defined) auto

lemma set_py_unique [simp]: "set (py_unique xs) = set xs"
  by (simp add: py_unique_def)

lemma distinct_py_unique [simp]: "distinct (py_unique xs)"
  by (simp add: py_unique_def)

lemma set_turma_set: "set (turma_set inp) = col_id ` set (turmas inp)"
  by (simp add: turma_set_def)

lemma distinct_turma_set: "distinct (turma_set inp)"
  by (simp add: turma_set_def)


lemma turma_uc_row:
  "map_of (turma_uc inp) t = Some u \<Longrightarrow> t \<in> set (turmas_da_uc inp u)"
  by (auto simp: turma_uc_def turmas_da_uc_def dest!: dict_zip_column)


lemma loop_vars_of_total:
  assumes "t \<in> set (turma_set inp)"
  shows "\<exists>r. loop_vars_of inp sem t = Inr r"
proof -
  from assms have t: "t \<in> col_id ` set (turmas inp)" by (simp add: set_turma_set)
  from dict_zip_column_defined [OF t, of col_unidade_curricular_id]
  obtain u where "map_of (turma_uc inp) t = Some u"
    unfolding turma_uc_def by blast
  moreover from dict_zip_column_defined [OF t, of col_docente_id]
  obtain d where "map_of (turma_docente inp) t = Some d"
    unfolding turma_docente_def by blast
  moreover from dict_zip_column_defined [OF t, of col_duracao]
  obtain dur where "map_of (turma_duracao inp) t = Some dur"
    unfolding turma_duracao_def by blast
  ultimately show ?thesis
    by (cases "map_of sem u") (simp_all add: loop_vars_of_def)
qed

lemma loop_vars_of_fields:
  "loop_vars_of inp sem t = Inr (Some lv) \<Longrightarrow>
   turma_id lv = t \<and> map_of (turma_docente inp) t = Some (docente_id lv)
   \<and> map_of (turma_duracao inp) t = Some (duracao lv)
   \<and> map_of (turma_uc inp) t = Some (uc_id lv)
   \<and> map_of sem (uc_id lv) = Some (semestre_atual lv)"
  unfolding loop_vars_of_def
  by (cases "map_of (turma_uc inp) t"; cases "map_of (turma_docente inp) t";
      cases "map_of (turma_duracao inp) t"; cases "map_of sem (the (map_of (turma_uc inp) t))")
     auto

lemma distinct_periodos_ordenados: "distinct (periodos_ordenados inp)"
  by (simp add: periodos_ordenados_def)

lemma set_py_slice: "set (py_slice xs i j) \<subseteq> set xs"
proof -
  have "set (take n (drop m xs)) \<subseteq> set xs" for n m
    using set_take_subset [of n "drop m xs"] set_drop_subset [of m xs] by blast
  then show ?thesis by (simp add: py_slice_def Let_def)
qed

lemma distinct_py_slice: "distinct xs \<Longrightarrow> distinct (py_slice xs i j)"
  by (simp add: py_slice_def Let_def)

lemma length_py_slice:
  "0 \<le> i \<Longrightarrow> 0 \<le> d \<Longrightarrow> i + d \<le> int (length xs) \<Longrightarrow> length (py_slice xs i (i + d)) = nat d"
  by (simp add: py_slice_def Let_def py_clamp_def)

lemma distinct_sequencia: "distinct (sequencia inp lv i)"
  by (simp add: sequencia_def distinct_py_slice distinct_periodos_ordenados)

lemma length_sequencia:
  assumes "0 \<le> duracao lv" "i \<in> set (start_indices inp lv)"
  shows "length (sequencia inp lv i) = nat (duracao lv)"
proof -
  from assms(2) have "int i + duracao lv \<le> int (length (periodos_ordenados inp))"
    by (auto simp: start_indices_def)
  with assms(1) show ?thesis
    unfolding sequencia_def by (intro length_py_slice) auto
qed

text \<open>The reads of line 160 stay within the block.\<close>

lemma consecutivos_in_range:
  assumes "i \<in> set (start_indices inp lv)" "k \<in> set [0 ..< nat (duracao lv - 1)]"
  shows "k + 1 < length (sequencia inp lv i)"
proof -
  from assms(2) have d: "2 \<le> duracao lv" and k: "int k < duracao lv - 1" by auto
  from d assms(1) have "length (sequencia inp lv i) = nat (duracao lv)"
    by (intro length_sequencia) auto
  with k show ?thesis by linarith
qed

lemma find_append_cases:
  "find P (xs @ ys) = (case find P xs of None \<Rightarrow> find P ys | Some x \<Rightarrow> Some x)"
  by (induction xs) auto

lemma find_map_pair:
  "find P (map (\<lambda>i. (s, f i)) is) = map_option (\<lambda>i. (s, f i)) (find (\<lambda>i. P (s, f i)) is)"
  by (induction "is") auto

lemma tentar_periodos_find:
  "tentar_periodos inp sem st lv s is =
     map_option (\<lambda>i. alocar lv s (sequencia inp lv i) st)
       (find (\<lambda>i. sobrevive inp sem st lv (s, sequencia inp lv i)) is)"
  by (induction "is") (auto simp: sobrevive_def Let_def)

lemma tentar_salas_find:
  "tentar_salas inp sem st lv rooms =
     map_option (\<lambda>c. alocar lv (fst c) (snd c) st)
       (find (sobrevive inp sem st lv) (candidatos inp lv rooms))"
proof (induction rooms)
  case Nil
  then show ?case by (simp add: candidatos_def)
next
  case (Cons s rooms)
  have c: "candidatos inp lv (s # rooms) =
      map (\<lambda>i. (s, sequencia inp lv i)) (start_indices inp lv) @ candidatos inp lv rooms"
    by (simp add: candidatos_def)
  show ?case
    unfolding c find_append_cases find_map_pair
    by (simp add: Cons.IH tentar_periodos_find option.map_comp comp_def split: option.splits)
qed

lemma processar_turma_first_fit:
  assumes "loop_vars_of inp sem t = Inr (Some lv)"
  shows "processar_turma ls inp sem st t =
     Inr (case first_fit ls inp sem st lv of
            None \<Rightarrow> st
          | Some c \<Rightarrow> alocar lv (fst c) (snd c) st)"
proof -
  from assms have t: "turma_id lv = t" by (simp add: loop_vars_of_fields)
  show ?thesis
  proof (cases "turma_sala ls inp t = []")
    case True
    then show ?thesis
      using assms t by (simp add: processar_turma_def first_fit_def candidatos_def)
  next
    case False
    then show ?thesis
      using assms t
      by (simp add: processar_turma_def first_fit_def tentar_salas_find Let_def
               split: option.splits)
  qed
qed

lemma find_SomeD: "find P xs = Some x \<Longrightarrow> x \<in> set xs \<and> P x"
  by (induction xs) (auto split: if_splits)

lemma find_NoneD: "find P xs = None \<Longrightarrow> x \<in> set xs \<Longrightarrow> \<not> P x"
  by (induction xs) (auto split: if_splits)

lemma processar_turma_cases:
  assumes "processar_turma ls inp sem st t = Inr st'"
  shows "st' = st \<or> (\<exists>lv c. aceite ls inp sem st t lv c \<and> st' = alocar lv (fst c) (snd c) st)"
proof (cases "loop_vars_of inp sem t")
  case (Inl e)
  with assms show ?thesis by (simp add: processar_turma_def)
next
  case (Inr r)
  show ?thesis
  proof (cases r)
    case None
    with Inr assms show ?thesis by (simp add: processar_turma_def)
  next
    case (Some lv)
    with Inr have lv: "loop_vars_of inp sem t = Inr (Some lv)" by simp
    then have t: "turma_id lv = t" by (simp add: loop_vars_of_fields)
    from assms have st': "st' = (case first_fit ls inp sem st lv of
            None \<Rightarrow> st | Some c \<Rightarrow> alocar lv (fst c) (snd c) st)"
      by (simp add: processar_turma_first_fit [OF lv])
    show ?thesis
    proof (cases "first_fit ls inp sem st lv")
      case None
      with st' show ?thesis by simp
    next
      case (Some c)
      then have "c \<in> set (candidatos inp lv (turma_sala ls inp t)) \<and> sobrevive inp sem st lv c"
        unfolding first_fit_def t by (rule find_SomeD)
      with lv have "aceite ls inp sem st t lv c" by (simp add: aceite_def)
      moreover from Some st' have "st' = alocar lv (fst c) (snd c) st" by simp
      ultimately show ?thesis by blast
    qed
  qed
qed

lemma processar_turma_total:
  "t \<in> set (turma_set inp) \<Longrightarrow> \<exists>st'. processar_turma ls inp sem st t = Inr st'"
  using loop_vars_of_total [of t inp sem]
  by (auto simp: processar_turma_def Let_def split: option.splits)

lemma lp_pass_append:
  "lp_pass ls inp sem st (xs @ ys) =
     (case lp_pass ls inp sem st xs of Inl e \<Rightarrow> Inl e | Inr st1 \<Rightarrow> lp_pass ls inp sem st1 ys)"
  by (induction xs arbitrary: st) (auto split: sum.splits)

lemma lp_pass_total:
  "set ts \<subseteq> set (turma_set inp) \<Longrightarrow> \<exists>st'. lp_pass ls inp sem st ts = Inr st'"
proof (induction ts arbitrary: st)
  case Nil
  then show ?case by simp
next
  case (Cons t ts)
  then obtain st1 where "processar_turma ls inp sem st t = Inr st1"
    using processar_turma_total [of t inp ls sem st] by auto
  with Cons show ?case by simp
qed

text \<open>Induction over the pass: a property kept by every commit holds at the end.\<close>

lemma lp_pass_induct:
  assumes run: "lp_pass ls inp sem st0 ts = Inr st'"
    and base: "P [] st0"
    and skip: "\<And>us st t. P us st \<Longrightarrow> P (us @ [t]) st"
    and commit: "\<And>us st t lv c. P us st \<Longrightarrow> aceite ls inp sem st t lv c
                   \<Longrightarrow> P (us @ [t]) (alocar lv (fst c) (snd c) st)"
  shows "P ts st'"
  using run
proof (induction ts arbitrary: st' rule: rev_induct)
  case Nil
  with base show ?case by simp
next
  case (snoc t ts)
  from snoc.prems obtain st1 where st1: "lp_pass ls inp sem st0 ts = Inr st1"
    and step: "processar_turma ls inp sem st1 t = Inr st'"
    by (auto simp: lp_pass_append split: sum.splits)
  from snoc.IH [OF st1] have P: "P ts st1" .
  from processar_turma_cases [OF step] show ?case
  proof
    assume "st' = st1"
    with skip [OF P] show ?thesis by simp
  next
    assume "\<exists>lv c. aceite ls inp sem st1 t lv c \<and> st' = alocar lv (fst c) (snd c) st1"
    then obtain lv c where "aceite ls inp sem st1 t lv c" "st' = alocar lv (fst c) (snd c) st1"
      by blast
    with commit [OF P] show ?thesis by simp
  qed
qed

lemma takeWhile_sep: "c \<notin> set u \<Longrightarrow> takeWhile (\<lambda>x. x \<noteq> c) (u @ c # r) = u"
  by (induction u) auto

lemma var_name_no_colon [simp]: "CHR '':'' \<notin> set (var_name t s p)"
  by (simp add: var_name_def)

lemma cname_cont:
  "constraint_name (cont_constraint (var_name t s p1) (var_name t s p)) = cont_name t s p1 p"
proof -
  have "cont_constraint (var_name t s p1) (var_name t s p) =
      cont_name t s p1 p @ CHR '':'' # ('' '' @ var_name t s p1 @ '' - '' @ var_name t s p @ '' = 0'' @ nl)"
    by (simp add: cont_constraint_def cont_name_def)
  moreover have "CHR '':'' \<notin> set (cont_name t s p1 p)"
    by (simp add: cont_name_def)
  ultimately show ?thesis
    unfolding constraint_name_def by (metis takeWhile_sep)
qed

lemma cname_allocation:
  "constraint_name (allocation_constraint t d vs) = allocation_name t"
proof -
  have "allocation_constraint t d vs =
      allocation_name t @ CHR '':'' # ('' '' @ py_join '' + '' vs @ '' = '' @ str_int d @ nl)"
    by (simp add: allocation_constraint_def allocation_name_def)
  moreover have "CHR '':'' \<notin> set (allocation_name t)"
    by (simp add: allocation_name_def)
  ultimately show ?thesis
    unfolding constraint_name_def by (metis takeWhile_sep)
qed

lemma cname_sala:
  "constraint_name (sala_constraint s t d vs) = sala_name s t"
proof -
  have "sala_constraint s t d vs =
      sala_name s t @ CHR '':'' # ('' '' @ py_join '' + '' vs @ '' - '' @ str_int d @ '' z_''
         @ str_int s @ '' <= 0'' @ nl)"
    by (simp add: sala_constraint_def sala_name_def)
  moreover have "CHR '':'' \<notin> set (sala_name s t)"
    by (simp add: sala_name_def)
  ultimately show ?thesis
    unfolding constraint_name_def by (metis takeWhile_sep)
qed

lemma cont_name_inj:
  "cont_name t s p1 p = cont_name t' s' p1' p' \<Longrightarrow> t = t' \<and> s = s' \<and> p1 = p1' \<and> p = p'"
  by (simp add: cont_name_def var_name_def)

lemma allocation_name_inj: "allocation_name t = allocation_name t' \<Longrightarrow> t = t'"
  by (simp add: allocation_name_def)

lemma sala_name_inj: "sala_name s t = sala_name s' t' \<Longrightarrow> s = s' \<and> t = t'"
  by (simp add: sala_name_def)

lemma names_apart [simp]:
  "cont_name t s p1 p \<noteq> allocation_name t'"
  "cont_name t s p1 p \<noteq> sala_name s' t'"
  "allocation_name t \<noteq> cont_name t' s' p1' p'"
  "allocation_name t \<noteq> sala_name s' t'"
  "sala_name s t \<noteq> cont_name t' s' p1' p'"
  "sala_name s t \<noteq> allocation_name t'"
  by (simp_all add: cont_name_def allocation_name_def sala_name_def)

text \<open>The names of the lines of a block.\<close>

lemma cnames_block_lines:
  "map constraint_name (block_lines t s d p1 ps) =
     map (cont_name t s p1) ps @ [allocation_name t, sala_name s t]"
  by (simp add: block_lines_def cname_cont cname_allocation cname_sala comp_def)

lemma distinct_cnames_block_lines:
  assumes "distinct ps"
  shows "distinct (map constraint_name (block_lines t s d p1 ps))"
proof -
  have "inj_on (cont_name t s p1) (set ps)"
    by (auto simp: inj_on_def dest: cont_name_inj)
  with assms have "distinct (map (cont_name t s p1) ps)"
    by (simp add: distinct_map)
  then show ?thesis
    by (auto simp: cnames_block_lines)
qed

lemma cnames_block_lines_apart:
  assumes "t \<noteq> t'"
  shows "set (map constraint_name (block_lines t s d p1 ps))
           \<inter> set (map constraint_name (block_lines t' s' d' p1' ps')) = {}"
  using assms unfolding cnames_block_lines
  by (auto dest: cont_name_inj allocation_name_inj sala_name_inj)

lemma distinct_cnames_placement_lines:
  "distinct (snd (snd pl)) \<Longrightarrow> distinct (map constraint_name (placement_lines inp pl))"
  by (auto simp: placement_lines_def distinct_cnames_block_lines split: list.splits option.splits)

lemma cnames_placement_lines_apart:
  assumes "fst pl \<noteq> fst pl'"
  shows "set (map constraint_name (placement_lines inp pl))
           \<inter> set (map constraint_name (placement_lines inp pl')) = {}"
proof (cases "placement_lines inp pl = [] \<or> placement_lines inp pl' = []")
  case True
  then show ?thesis by auto
next
  case False
  then obtain p1 ps d p1' ps' d' where
    "placement_lines inp pl = block_lines (fst pl) (fst (snd pl)) d p1 ps"
    "placement_lines inp pl' = block_lines (fst pl') (fst (snd pl')) d' p1' ps'"
    by (auto simp: placement_lines_def split: list.splits option.splits)
  with cnames_block_lines_apart [OF assms] show ?thesis
    by simp
qed

lemma distinct_concat_map_key:
  assumes "distinct (map k xs)"
    and "\<And>x. x \<in> set xs \<Longrightarrow> distinct (f x)"
    and "\<And>x y. x \<in> set xs \<Longrightarrow> y \<in> set xs \<Longrightarrow> k x \<noteq> k y \<Longrightarrow> set (f x) \<inter> set (f y) = {}"
  shows "distinct (concat (map f xs))"
  using assms
proof (induction xs)
  case Nil
  then show ?case by simp
next
  case (Cons x xs)
  have "set (f x) \<inter> set (f y) = {}" if "y \<in> set xs" for y
  proof -
    from Cons.prems(1) that have "k x \<noteq> k y" by auto
    with Cons.prems(3) [of x y] that show ?thesis by simp
  qed
  moreover have "distinct (concat (map f xs))"
    using Cons by auto
  moreover have "distinct (f x)" using Cons.prems(2) by simp
  ultimately show ?case by auto
qed

subsection \<open>What a commit changes\<close>

lemma reservar_fold_log [simp]:
  "log_agendada (foldl (reservar lv s) st seq) = log_agendada st"
  by (induction seq arbitrary: st) (simp_all add: reservar_def)

lemma reservar_fold_written [simp]:
  "lp_written (foldl (reservar lv s) st seq) = lp_written st"
  by (induction seq arbitrary: st) (simp_all add: reservar_def)

lemma reservar_fold_written_constraints [simp]:
  "written_constraints (foldl (reservar lv s) st seq) = written_constraints st"
  by (induction seq arbitrary: st) (simp_all add: reservar_def)

lemma reservar_fold_variables:
  "variables (foldl (reservar lv s) st seq) = variables st \<union> var_name (turma_id lv) s ` set seq"
  by (induction seq arbitrary: st) (auto simp: reservar_def)

lemma reservar_fold_sala:
  "map_of (sala_periodos_ocupados (foldl (reservar lv s) st seq)) (a, p) =
     (if a = s \<and> p \<in> set seq then Some (turma_id lv)
      else map_of (sala_periodos_ocupados st) (a, p))"
  by (induction seq arbitrary: st) (auto simp: reservar_def map_of_dict_set)

lemma reservar_fold_docente:
  "map_of (docente_periodos_ocupados (foldl (reservar lv s) st seq)) (a, p) =
     (if a = docente_id lv \<and> p \<in> set seq then Some (turma_id lv)
      else map_of (docente_periodos_ocupados st) (a, p))"
  by (induction seq arbitrary: st) (auto simp: reservar_def map_of_dict_set)

lemma reservar_fold_sala_keys:
  "distinct (map fst (sala_periodos_ocupados st)) \<Longrightarrow>
   distinct (map fst (sala_periodos_ocupados (foldl (reservar lv s) st seq)))"
  by (induction seq arbitrary: st) (simp_all add: reservar_def distinct_keys_dict_set)

lemma reservar_fold_docente_keys:
  "distinct (map fst (docente_periodos_ocupados st)) \<Longrightarrow>
   distinct (map fst (docente_periodos_ocupados (foldl (reservar lv s) st seq)))"
  by (induction seq arbitrary: st) (simp_all add: reservar_def distinct_keys_dict_set)

lemma write_constraint_keeps [simp]:
  "variables (write_constraint c st) = variables st"
  "docente_periodo_vars (write_constraint c st) = docente_periodo_vars st"
  "sala_periodo_vars (write_constraint c st) = sala_periodo_vars st"
  "sala_periodos_ocupados (write_constraint c st) = sala_periodos_ocupados st"
  "docente_periodos_ocupados (write_constraint c st) = docente_periodos_ocupados st"
  "log_agendada (write_constraint c st) = log_agendada st"
  by (simp_all add: write_constraint_def)

lemma write_all_simps [simp]:
  "write_all [] st = st"
  "write_all (c # cs) st = write_all cs (write_constraint c st)"
  by (simp_all add: write_all_def)

lemma write_all_append: "write_all (cs @ ds) st = write_all ds (write_all cs st)"
  by (simp add: write_all_def)

lemma write_all_keeps [simp]:
  "variables (write_all cs st) = variables st"
  "docente_periodo_vars (write_all cs st) = docente_periodo_vars st"
  "sala_periodo_vars (write_all cs st) = sala_periodo_vars st"
  "sala_periodos_ocupados (write_all cs st) = sala_periodos_ocupados st"
  "docente_periodos_ocupados (write_all cs st) = docente_periodos_ocupados st"
  "log_agendada (write_all cs st) = log_agendada st"
  by (induction cs arbitrary: st) simp_all

lemma write_all_fresh:
  assumes "written_constraints st = set (lp_written st)" "distinct cs"
    "set cs \<inter> set (lp_written st) = {}"
  shows "lp_written (write_all cs st) = lp_written st @ cs
         \<and> written_constraints (write_all cs st) = set (lp_written st @ cs)"
  using assms
proof (induction cs arbitrary: st)
  case Nil
  then show ?case by simp
next
  case (Cons c cs)
  let ?st1 = "write_constraint c st"
  from Cons.prems have c: "c \<notin> written_constraints st" by auto
  then have w: "lp_written ?st1 = lp_written st @ [c]"
    and wc: "written_constraints ?st1 = set (lp_written ?st1)"
    using Cons.prems(1) by (simp_all add: write_constraint_def)
  from Cons.prems w have "set cs \<inter> set (lp_written ?st1) = {}" by auto
  with Cons.IH [OF wc] Cons.prems(2) w show ?case by simp
qed

text \<open>Lines 226 to 246 write the lines of the placement, each unless written before.\<close>

lemma write_block_constraints_eq:
  assumes "map_of (turma_duracao inp) (turma_id lv) = Some (duracao lv)"
  shows "write_block_constraints lv s (map (var_name (turma_id lv) s) seq) st =
         write_all (placement_lines inp (turma_id lv, s, seq)) st"
proof (cases seq)
  case Nil
  then show ?thesis by (simp add: write_block_constraints_def placement_lines_def)
next
  case (Cons p1 ps)
  have "foldl (\<lambda>s' var. write_constraint (cont_constraint v var) s') st (map f ps) =
        write_all (map (\<lambda>p. cont_constraint v (f p)) ps) st" for v f
    by (simp add: write_all_def foldl_map)
  with Cons assms show ?thesis
    by (simp add: write_block_constraints_def placement_lines_def block_lines_def
          write_all_append Let_def)
qed

lemma alocar_eq:
  assumes "map_of (turma_duracao inp) (turma_id lv) = Some (duracao lv)"
  shows "alocar lv s seq st =
     (write_all (placement_lines inp (turma_id lv, s, seq)) (foldl (reservar lv s) st seq))
       \<lparr>log_agendada := log_agendada st @ [(turma_id lv, s, seq)]\<rparr>"
  by (simp add: alocar_def Let_def write_block_constraints_eq [OF assms])

lemma write_block_constraints_write_all:
  "write_block_constraints lv s vs st =
     write_all (if vs = [] then []
                else map (cont_constraint (hd vs)) (tl vs)
                     @ [allocation_constraint (turma_id lv) (duracao lv) vs,
                        sala_constraint s (turma_id lv) (duracao lv) vs]) st"
  by (simp add: write_block_constraints_def write_all_def Let_def foldl_map)

lemma alocar_log [simp]:
  "log_agendada (alocar lv s seq st) = log_agendada st @ [(turma_id lv, s, seq)]"
  by (simp add: alocar_def Let_def write_block_constraints_write_all)

lemma alocar_sala:
  "map_of (sala_periodos_ocupados (alocar lv s seq st)) (a, p) =
     (if a = s \<and> p \<in> set seq then Some (turma_id lv)
      else map_of (sala_periodos_ocupados st) (a, p))"
  by (simp add: alocar_def Let_def write_block_constraints_write_all reservar_fold_sala)

lemma alocar_docente:
  "map_of (docente_periodos_ocupados (alocar lv s seq st)) (a, p) =
     (if a = docente_id lv \<and> p \<in> set seq then Some (turma_id lv)
      else map_of (docente_periodos_ocupados st) (a, p))"
  by (simp add: alocar_def Let_def write_block_constraints_write_all reservar_fold_docente)

lemma alocar_sala_keys:
  "distinct (map fst (sala_periodos_ocupados st)) \<Longrightarrow>
   distinct (map fst (sala_periodos_ocupados (alocar lv s seq st)))"
  by (simp add: alocar_def Let_def write_block_constraints_write_all reservar_fold_sala_keys)

lemma alocar_variables:
  "variables (alocar lv s seq st) = variables st \<union> var_name (turma_id lv) s ` set seq"
  by (simp add: alocar_def Let_def write_block_constraints_write_all reservar_fold_variables)

lemma alocar_periodo_vars:
  "docente_periodo_vars (alocar lv s seq st) = docente_periodo_vars (foldl (reservar lv s) st seq)"
  "sala_periodo_vars (alocar lv s seq st) = sala_periodo_vars (foldl (reservar lv s) st seq)"
  by (simp_all add: alocar_def Let_def write_block_constraints_write_all)

text \<open>What the checks of lines 164 to 166 give for an accepted block.\<close>

lemma sobrevive_free:
  assumes "sobrevive inp sem st lv c" "p \<in> set (snd c)"
  shows "map_of (sala_periodos_ocupados st) (fst c, p) = None"
    and "map_of (docente_periodos_ocupados st) (docente_id lv, p) = None"
    and "p \<notin> set (I_d_turma inp (turma_id lv))"
  using assms by (auto simp: sobrevive_def conflito_sala_docente_def list_ex_iff)

lemma aceite_block:
  assumes "aceite ls inp sem st t lv c"
  shows "turma_id lv = t" and "fst c \<in> set (turma_sala ls inp t)"
    and "\<exists>i \<in> set (start_indices inp lv). snd c = sequencia inp lv i"
    and "distinct (snd c)" and "consecutivos (snd c) (duracao lv)"
    and "map_of (turma_duracao inp) t = Some (duracao lv)"
    and "map_of (turma_docente inp) t = Some (docente_id lv)"
    and "map_of (turma_uc inp) t = Some (uc_id lv)"
    and "map_of sem (uc_id lv) = Some (semestre_atual lv)"
    and "sobrevive inp sem st lv c"
proof -
  from assms have lv: "loop_vars_of inp sem t = Inr (Some lv)"
    and c: "c \<in> set (candidatos inp lv (turma_sala ls inp t))"
    and s: "sobrevive inp sem st lv c"
    by (simp_all add: aceite_def)
  from loop_vars_of_fields [OF lv]
  show "turma_id lv = t" "map_of (turma_duracao inp) t = Some (duracao lv)"
    "map_of (turma_docente inp) t = Some (docente_id lv)"
    "map_of (turma_uc inp) t = Some (uc_id lv)"
    "map_of sem (uc_id lv) = Some (semestre_atual lv)"
    by simp_all
  from c show "fst c \<in> set (turma_sala ls inp t)"
    and i: "\<exists>i \<in> set (start_indices inp lv). snd c = sequencia inp lv i"
    by (auto simp: candidatos_def)
  from i show "distinct (snd c)" by (auto simp: distinct_sequencia)
  from s show "consecutivos (snd c) (duracao lv)" by (simp add: sobrevive_def)
  from s show "sobrevive inp sem st lv c" .
qed

subsection \<open>The placements logged belong to sections already processed, each once\<close>

lemma inv_ids_init: "inv_ids [] init_state"
  by (simp add: inv_ids_def init_state_def)

lemma inv_ids_skip: "inv_ids us st \<Longrightarrow> inv_ids (us @ [t]) st"
  by (auto simp: inv_ids_def)

lemma inv_ids_commit:
  assumes "inv_ids us st" "t \<notin> set us" "aceite ls inp sem st t lv c"
  shows "inv_ids (us @ [t]) (alocar lv (fst c) (snd c) st)"
proof -
  from assms(3) have t: "turma_id lv = t" by (rule aceite_block)
  from assms(1,2) have "t \<notin> fst ` set (log_agendada st)" by (auto simp: inv_ids_def)
  with assms(1) t show ?thesis by (auto simp: inv_ids_def)
qed

subsection \<open>The occupancy maps hold exactly the logged placements\<close>

lemma inv_occ_init: "inv_occ inp init_state"
  by (simp add: inv_occ_def init_state_def)

lemma inv_occ_commit:
  assumes inv: "inv_occ inp st" and ac: "aceite ls inp sem st t lv c"
  shows "inv_occ inp (alocar lv (fst c) (snd c) st)"
proof -
  let ?st' = "alocar lv (fst c) (snd c) st"
  from ac have t: "turma_id lv = t" by (rule aceite_block)
  from ac have d: "map_of (turma_docente inp) t = Some (docente_id lv)" by (rule aceite_block)
  from ac have sv: "sobrevive inp sem st lv c" by (rule aceite_block)
  have free_s: "map_of (sala_periodos_ocupados st) (fst c, p) = None" if "p \<in> set (snd c)" for p
    using sobrevive_free(1) [OF sv that] .
  have 1: "distinct (map fst (sala_periodos_ocupados ?st'))"
    using inv by (simp add: inv_occ_def alocar_sala_keys)
  have 2: "map_of (sala_periodos_ocupados ?st') (fst (snd pl), p) = Some (fst pl)"
    if pl: "pl \<in> set (log_agendada ?st')" and p: "p \<in> set (snd (snd pl))" for pl p
  proof (cases "pl = (t, fst c, snd c)")
    case True
    with p t show ?thesis by (simp add: alocar_sala)
  next
    case False
    with pl t have old: "pl \<in> set (log_agendada st)" by simp
    with inv p have o: "map_of (sala_periodos_ocupados st) (fst (snd pl), p) = Some (fst pl)"
      by (simp add: inv_occ_def)
    with free_s [of p] have "\<not> (fst (snd pl) = fst c \<and> p \<in> set (snd c))" by auto
    with o show ?thesis by (auto simp: alocar_sala)
  qed
  have 3: "\<exists>seq. (t', s, seq) \<in> set (log_agendada ?st') \<and> p \<in> set seq"
    if "map_of (sala_periodos_ocupados ?st') (s, p) = Some t'" for s p t'
  proof (cases "s = fst c \<and> p \<in> set (snd c)")
    case True
    with that t have "t' = t" by (simp add: alocar_sala)
    with True t show ?thesis by (intro exI [of _ "snd c"]) simp
  next
    case False
    with that have "map_of (sala_periodos_ocupados st) (s, p) = Some t'"
      by (auto simp: alocar_sala split: if_splits)
    with inv obtain seq where "(t', s, seq) \<in> set (log_agendada st)" "p \<in> set seq"
      unfolding inv_occ_def by blast
    then show ?thesis by (intro exI [of _ seq]) simp
  qed
  have 4: "map_of (docente_periodos_ocupados ?st') (d', p) \<noteq> None"
    if pl: "pl \<in> set (log_agendada ?st')" and p: "p \<in> set (snd (snd pl))"
      and d': "map_of (turma_docente inp) (fst pl) = Some d'" for pl p d'
  proof (cases "pl = (t, fst c, snd c)")
    case True
    with d d' have "d' = docente_id lv" by simp
    with True p show ?thesis by (simp add: alocar_docente)
  next
    case False
    with pl t have old: "pl \<in> set (log_agendada st)" by simp
    with inv p d' have "map_of (docente_periodos_ocupados st) (d', p) \<noteq> None"
      unfolding inv_occ_def by blast
    then show ?thesis by (auto simp: alocar_docente)
  qed
  from 1 2 3 4 show ?thesis unfolding inv_occ_def by blast
qed

subsection \<open>Every logged block is a candidate of its section that passed line 160\<close>

lemma inv_shape_init: "inv_shape ls inp sem init_state"
  by (simp add: inv_shape_def init_state_def)

lemma inv_shape_commit:
  assumes "inv_shape ls inp sem st" "aceite ls inp sem st t lv c"
  shows "inv_shape ls inp sem (alocar lv (fst c) (snd c) st)"
proof -
  from assms(2) have t: "turma_id lv = t" by (rule aceite_block)
  from assms(2) have new: "loop_vars_of inp sem t = Inr (Some lv)"
    "c \<in> set (candidatos inp lv (turma_sala ls inp t))" "consecutivos (snd c) (duracao lv)"
    by (simp_all add: aceite_def sobrevive_def)
  show ?thesis
    unfolding inv_shape_def
  proof
    fix pl assume "pl \<in> set (log_agendada (alocar lv (fst c) (snd c) st))"
    then consider "pl \<in> set (log_agendada st)" | "pl = (t, c)" using t by auto
    then show "\<exists>lv. loop_vars_of inp sem (fst pl) = Inr (Some lv)
        \<and> snd pl \<in> set (candidatos inp lv (turma_sala ls inp (fst pl)))
        \<and> consecutivos (snd (snd pl)) (duracao lv)"
    proof cases
      case 1
      with assms(1) show ?thesis unfolding inv_shape_def by blast
    next
      case 2
      with new show ?thesis by auto
    qed
  qed
qed

lemma inv_shape_distinct:
  assumes "inv_shape ls inp sem st" "pl \<in> set (log_agendada st)"
  shows "distinct (snd (snd pl))"
proof -
  from assms obtain lv where "snd pl \<in> set (candidatos inp lv (turma_sala ls inp (fst pl)))"
    unfolding inv_shape_def by blast
  then show ?thesis by (auto simp: candidatos_def distinct_sequencia)
qed

subsection \<open>The lines written are the lines of the logged placements\<close>

lemma inv_lines_init: "inv_lines inp init_state"
  by (simp add: inv_lines_def init_state_def)

lemma distinct_placement_lines:
  "distinct (snd (snd pl)) \<Longrightarrow> distinct (placement_lines inp pl)"
  using distinct_cnames_placement_lines [of pl inp] by (simp add: distinct_map)

lemma placement_lines_apart:
  assumes "fst pl \<noteq> fst pl'"
  shows "set (placement_lines inp pl) \<inter> set (placement_lines inp pl') = {}"
  using cnames_placement_lines_apart [OF assms, of inp] by auto

lemma inv_lines_commit:
  assumes inv: "inv_lines inp st" and ids: "inv_ids us st" and t: "t \<notin> set us"
    and ac: "aceite ls inp sem st t lv c"
  shows "inv_lines inp (alocar lv (fst c) (snd c) st)"
proof -
  let ?pl = "(t, fst c, snd c)"
  let ?st1 = "foldl (reservar lv (fst c)) st (snd c)"
  from ac have tl: "turma_id lv = t" by (rule aceite_block)
  from ac have dur: "map_of (turma_duracao inp) (turma_id lv) = Some (duracao lv)"
    using tl aceite_block(6) [OF ac] by simp
  from ac have dist: "distinct (snd c)" by (rule aceite_block)
  have w1: "written_constraints ?st1 = set (lp_written ?st1)"
    using inv by (simp add: inv_lines_def)
  have d1: "distinct (placement_lines inp ?pl)"
    using dist by (simp add: distinct_placement_lines)
  have fresh: "set (placement_lines inp ?pl) \<inter> set (lp_written ?st1) = {}"
  proof -
    have "set (placement_lines inp ?pl) \<inter> set (placement_lines inp pl') = {}"
      if "pl' \<in> set (log_agendada st)" for pl'
    proof -
      from that ids t have "fst pl' \<noteq> t" by (auto simp: inv_ids_def)
      then show ?thesis by (intro placement_lines_apart) auto
    qed
    with inv show ?thesis by (auto simp: inv_lines_def)
  qed
  from write_all_fresh [OF w1 d1 fresh] inv
  show ?thesis
    by (simp add: alocar_eq [OF dur] tl inv_lines_def)
qed

subsection \<open>One variable per key\<close>

lemma inv_vars_init: "inv_vars init_state"
  by (simp add: inv_vars_def pvars_ok_def init_state_def)

lemma dict_set_fresh: "k \<notin> fst ` set d \<Longrightarrow> dict_set d k v = d @ [(k, v)]"
  by (induction d k v rule: dict_set.induct) auto

lemma dict_append_fresh: "k \<notin> fst ` set d \<Longrightarrow> dict_append d k v = d @ [(k, [v])]"
  by (simp add: dict_append_def map_of_eq_None_iff [THEN iffD2] dict_set_fresh)

lemma reservar_pvars_ok:
  assumes "pvars_ok st" "(s, p) \<notin> fst ` set (sala_periodos_ocupados st)"
    "(docente_id lv, p) \<notin> fst ` set (docente_periodos_ocupados st)"
  shows "pvars_ok (reservar lv s st p)"
proof -
  from assms have "(s, p) \<notin> fst ` set (sala_periodo_vars st)"
    "(docente_id lv, p) \<notin> fst ` set (docente_periodo_vars st)"
    by (auto simp: pvars_ok_def)
  with assms(1) show ?thesis
    by (auto simp: pvars_ok_def reservar_def dict_append_fresh set_keys_dict_set)
qed

lemma reservar_fold_pvars_ok:
  assumes "pvars_ok st" "distinct seq"
    "\<forall>p \<in> set seq. (s, p) \<notin> fst ` set (sala_periodos_ocupados st)
        \<and> (docente_id lv, p) \<notin> fst ` set (docente_periodos_ocupados st)"
  shows "pvars_ok (foldl (reservar lv s) st seq)"
  using assms
proof (induction seq arbitrary: st)
  case Nil
  then show ?case by simp
next
  case (Cons p seq)
  from Cons.prems have 1: "pvars_ok (reservar lv s st p)"
    by (intro reservar_pvars_ok) auto
  have 2: "\<forall>q \<in> set seq. (s, q) \<notin> fst ` set (sala_periodos_ocupados (reservar lv s st p))
        \<and> (docente_id lv, q) \<notin> fst ` set (docente_periodos_ocupados (reservar lv s st p))"
    using Cons.prems by (auto simp: reservar_def set_keys_dict_set)
  from Cons.IH [OF 1 _ 2] Cons.prems(2) show ?case by simp
qed

lemma inv_vars_commit:
  assumes inv: "inv_vars st" and ac: "aceite ls inp sem st t lv c"
  shows "inv_vars (alocar lv (fst c) (snd c) st)"
proof -
  from ac have tl: "turma_id lv = t" by (rule aceite_block)
  from ac have dist: "distinct (snd c)" by (rule aceite_block)
  from ac have sv: "sobrevive inp sem st lv c" by (rule aceite_block)
  from inv have pv: "pvars_ok st" by (simp add: inv_vars_def)
  have free: "\<forall>p \<in> set (snd c). (fst c, p) \<notin> fst ` set (sala_periodos_ocupados st)
        \<and> (docente_id lv, p) \<notin> fst ` set (docente_periodos_ocupados st)"
    using sobrevive_free(1,2) [OF sv] by (simp add: map_of_eq_None_iff)
  have "pvars_ok (foldl (reservar lv (fst c)) st (snd c))"
    using pv dist free by (rule reservar_fold_pvars_ok)
  then have "pvars_ok (alocar lv (fst c) (snd c) st)"
    by (simp add: pvars_ok_def alocar_def Let_def write_block_constraints_write_all)
  moreover have "variables (alocar lv (fst c) (snd c) st) =
      (\<Union>pl \<in> set (log_agendada (alocar lv (fst c) (snd c) st)).
          var_name (fst pl) (fst (snd pl)) ` set (snd (snd pl)))"
    using inv tl by (auto simp: inv_vars_def alocar_variables)
  ultimately show ?thesis by (simp add: inv_vars_def)
qed

lemma lp_pass_induct_distinct:
  assumes run: "lp_pass ls inp sem st0 ts = Inr st'"
    and dist: "distinct ts"
    and base: "P [] st0"
    and skip: "\<And>us st t. P us st \<Longrightarrow> t \<notin> set us \<Longrightarrow> P (us @ [t]) st"
    and commit: "\<And>us st t lv c. P us st \<Longrightarrow> t \<notin> set us \<Longrightarrow> aceite ls inp sem st t lv c
                   \<Longrightarrow> P (us @ [t]) (alocar lv (fst c) (snd c) st)"
  shows "P ts st'"
proof -
  have "distinct ts \<longrightarrow> P ts st'"
    using run
  proof (rule lp_pass_induct)
    show "distinct [] \<longrightarrow> P [] st0" using base by simp
  next
    fix us st t assume "distinct us \<longrightarrow> P us st"
    then show "distinct (us @ [t]) \<longrightarrow> P (us @ [t]) st" using skip by simp
  next
    fix us st t lv c
    assume "distinct us \<longrightarrow> P us st" "aceite ls inp sem st t lv c"
    then show "distinct (us @ [t]) \<longrightarrow> P (us @ [t]) (alocar lv (fst c) (snd c) st)"
      using commit by simp
  qed
  with dist show ?thesis by simp
qed

lemma inv_all_init: "inv_all ls inp sem [] init_state"
  by (simp add: inv_all_def inv_ids_init inv_occ_init inv_shape_init inv_lines_init
        inv_vars_init)

lemma inv_all_skip: "inv_all ls inp sem us st \<Longrightarrow> inv_all ls inp sem (us @ [t]) st"
  by (simp add: inv_all_def inv_ids_skip)

lemma inv_all_commit:
  assumes inv: "inv_all ls inp sem us st" and t: "t \<notin> set us"
    and ac: "aceite ls inp sem st t lv c"
  shows "inv_all ls inp sem (us @ [t]) (alocar lv (fst c) (snd c) st)"
proof -
  from inv have "inv_ids us st" "inv_occ inp st" "inv_shape ls inp sem st" "inv_lines inp st"
    "inv_vars st" by (simp_all add: inv_all_def)
  with t ac show ?thesis
    unfolding inv_all_def
    by (intro conjI inv_ids_commit inv_occ_commit inv_shape_commit inv_lines_commit
          inv_vars_commit)
qed

lemma inv_all_pass:
  assumes "lp_pass ls inp sem init_state ts = Inr st" "distinct ts"
  shows "inv_all ls inp sem ts st"
  using assms
  by (rule lp_pass_induct_distinct) (simp_all add: inv_all_init inv_all_skip inv_all_commit)


text \<open>The state after the first n sections.\<close>

lemma distinct_take_turma_set: "distinct (take n (turma_set inp))"
  by (simp add: distinct_turma_set)

lemma estado_apos_total:
  "\<exists>st. lp_pass ls inp sem init_state (take n (turma_set inp)) = Inr st"
  by (rule lp_pass_total) (auto dest: in_set_takeD)

lemma inv_all_apos:
  assumes "lp_pass ls inp sem init_state (take n (turma_set inp)) = Inr st"
  shows "inv_all ls inp sem (take n (turma_set inp)) st"
  using assms distinct_take_turma_set by (rule inv_all_pass)

text \<open>No conflict line is written when every key has at most one variable.\<close>

lemma conflito_constraints_none:
  "\<forall>kv \<in> set d. length (snd kv) \<le> 1 \<Longrightarrow> conflito_constraints inp who d = Inr []"
  by (induction d) auto

text \<open>The table of units and the result of the model builder.\<close>

lemma uc_groups_loop_total:
  "fst ` set kvs \<subseteq> col_id ` set (turmas inp) \<Longrightarrow> \<exists>g'. uc_groups_loop inp g kvs = Inr g'"
proof (induction kvs arbitrary: g)
  case Nil
  then show ?case by simp
next
  case (Cons kv kvs)
  then have "fst kv \<in> col_id ` set (turmas inp)" by auto
  from dict_zip_column_defined [OF this, of col_tipo_aula_id]
  obtain tipo where "map_of (turma_tipo inp) (fst kv) = Some tipo"
    unfolding turma_tipo_def by blast
  with Cons show ?case by simp
qed

lemma keys_turma_uc: "fst ` set (turma_uc inp) = col_id ` set (turmas inp)"
  by (simp add: turma_uc_def keys_dict_zip)

lemma build_model_result:
  "\<exists>g st. uc_groups_loop inp [] (turma_uc inp) = Inr g
     \<and> lp_pass ls inp sem init_state (turma_set inp) = Inr st
     \<and> inv_all ls inp sem (turma_set inp) st
     \<and> build_model ls inp sem =
         Inr \<lparr>objective = ''Minimize'' @ nl @ '' obj: ''
                   @ py_join '' + '' (map z_name (salas inp)) @ nl,
              constraints_turmas = lp_written st,
              constraints_ucs = restricoes_ucs inp,
              constraints_ordem = ordem_constraints g,
              constraints_docente = [],
              constraints_sala = [],
              binary_x = sorted_list_of_set (variables st),
              binary_z = sorted_list_of_set (set (map z_name (salas inp))),
              agendadas = log_agendada st\<rparr>"
proof -
  obtain g where g: "uc_groups_loop inp [] (turma_uc inp) = Inr g"
    using uc_groups_loop_total [of "turma_uc inp" inp "[]"] keys_turma_uc by auto
  obtain st where st: "lp_pass ls inp sem init_state (turma_set inp) = Inr st"
    using lp_pass_total [of "turma_set inp" inp ls sem init_state] by auto
  have inv: "inv_all ls inp sem (turma_set inp) st"
    using st distinct_turma_set by (rule inv_all_pass)
  then have "pvars_ok st" by (simp add: inv_all_def inv_vars_def)
  then have "conflito_constraints inp ''docente_'' (docente_periodo_vars st) = Inr []"
    "conflito_constraints inp ''sala_'' (sala_periodo_vars st) = Inr []"
    by (simp_all add: pvars_ok_def conflito_constraints_none)
  with g st inv show ?thesis
    by (simp add: build_model_def)
qed

lemma generate_lp_file_result:
  assumes "generate_lp_file ls inp = Inr m"
  shows "\<exists>frame semestre. unidades_curriculares inp = Some frame
           \<and> uc_col_semestre frame = Some semestre
           \<and> build_model ls inp (uc_semestre frame semestre) = Inr m"
  using assms by (auto simp: generate_lp_file_def split: option.splits)

subsection \<open>The names of the constraints written after the pass\<close>

lemma cname_restricao:
  assumes "CHR '':'' \<notin> set pre"
  shows "map constraint_name (restricao inp pre a b p) =
           (if vars_uc_p_real inp a p \<noteq> [] \<or> vars_uc_p_real inp b p \<noteq> []
            then [pre @ str_int p] else [])"
proof -
  have "constraint_name ((pre @ str_int p) @ CHR '':'' # r) = pre @ str_int p" for r
    unfolding constraint_name_def using assms by (intro takeWhile_sep) simp
  then show ?thesis by (simp add: restricao_def)
qed

lemma cnames_restricao_subset:
  assumes "CHR '':'' \<notin> set pre"
  shows "set (map constraint_name (restricao inp pre a b p)) \<subseteq> {pre @ str_int p}"
  unfolding cname_restricao [OF assms] by auto

lemma cnames_restricoes_periodo:
  "set (map constraint_name (restricoes_periodo inp p))
     \<subseteq> (\<lambda>pre. pre @ str_int p) ` set prefixos_restricao"
proof -
  have "set (map constraint_name (restricao inp pre a b p))
      \<subseteq> (\<lambda>pre. pre @ str_int p) ` set prefixos_restricao"
    if "pre \<in> set prefixos_restricao" for pre a b
  proof -
    from that have "CHR '':'' \<notin> set pre" by (auto simp: prefixos_restricao_def)
    from cnames_restricao_subset [OF this, of inp a b p] that show ?thesis by blast
  qed
  then show ?thesis
    unfolding restricoes_periodo_def map_append set_append
    by (intro Un_least) (simp_all add: prefixos_restricao_def)
qed

lemma distinct_cnames_restricoes_periodo:
  "distinct (map constraint_name (restricoes_periodo inp p))"
  by (simp add: restricoes_periodo_def cname_restricao)

lemma prefixo_restricao_inj:
  assumes "pre \<in> set prefixos_restricao" "pre' \<in> set prefixos_restricao"
    "pre @ str_int p = pre' @ str_int q"
  shows "p = q"
  using assms by (auto simp: prefixos_restricao_def)

lemma cnames_restricoes_periodo_apart:
  assumes "p \<noteq> q"
  shows "set (map constraint_name (restricoes_periodo inp p))
           \<inter> set (map constraint_name (restricoes_periodo inp q)) = {}"
proof -
  have False if "n \<in> set (map constraint_name (restricoes_periodo inp p))"
    "n \<in> set (map constraint_name (restricoes_periodo inp q))" for n
  proof -
    from that cnames_restricoes_periodo [of inp p] cnames_restricoes_periodo [of inp q]
    obtain pre pre' where "pre \<in> set prefixos_restricao" "pre' \<in> set prefixos_restricao"
      "n = pre @ str_int p" "n = pre' @ str_int q" by blast
    with prefixo_restricao_inj [of pre pre' p q] assms show False by simp
  qed
  then show ?thesis by blast
qed

lemma distinct_cnames_restricoes_ucs:
  "distinct (map constraint_name (restricoes_ucs inp))"
proof -
  have "map constraint_name (restricoes_ucs inp) =
      concat (map (\<lambda>p. map constraint_name (restricoes_periodo inp p)) (py_unique (periodos inp)))"
    by (simp add: restricoes_ucs_def map_concat comp_def)
  moreover have "distinct (concat (map (\<lambda>p. map constraint_name (restricoes_periodo inp p))
      (py_unique (periodos inp))))"
  proof (rule distinct_concat_map_key [where k = "\<lambda>p. p"])
    show "distinct (map (\<lambda>p. p) (py_unique (periodos inp)))" by simp
  next
    fix p show "distinct (map constraint_name (restricoes_periodo inp p))"
      by (rule distinct_cnames_restricoes_periodo)
  next
    fix p q :: int assume "p \<noteq> q"
    then show "set (map constraint_name (restricoes_periodo inp p))
           \<inter> set (map constraint_name (restricoes_periodo inp q)) = {}"
      by (rule cnames_restricoes_periodo_apart)
  qed
  ultimately show ?thesis by simp
qed

lemma hd_cnames_restricoes_ucs:
  assumes "n \<in> set (map constraint_name (restricoes_ucs inp))"
  shows "hd n = CHR ''r''"
proof -
  from assms obtain p where "n \<in> set (map constraint_name (restricoes_periodo inp p))"
    by (auto simp: restricoes_ucs_def)
  with cnames_restricoes_periodo [of inp p] obtain pre where
    "pre \<in> set prefixos_restricao" "n = pre @ str_int p" by blast
  then show ?thesis by (auto simp: prefixos_restricao_def)
qed

lemma hd_cnames_placement_lines:
  assumes "n \<in> set (map constraint_name (placement_lines inp pl))"
  shows "hd n \<in> {CHR ''c'', CHR ''t'', CHR ''s''}"
proof -
  from assms obtain d p1 ps where
    "n \<in> set (map constraint_name (block_lines (fst pl) (fst (snd pl)) d p1 ps))"
    by (auto simp: placement_lines_def split: list.splits option.splits)
  then show ?thesis
    unfolding cnames_block_lines
    by (auto simp: cont_name_def allocation_name_def sala_name_def)
qed

subsection \<open>The ordering constraints\<close>

lemma cname_ordem: "constraint_name (ordem_constraint uc early late) = ordem_name uc early late"
proof -
  have "ordem_constraint uc early late =
      ordem_name uc early late @ CHR '':'' # ('' end_'' @ str_int early @ '' - start_''
         @ str_int late @ '' <= -1'' @ nl)"
    by (simp add: ordem_constraint_def ordem_name_def)
  moreover have "CHR '':'' \<notin> set (ordem_name uc early late)"
    by (simp add: ordem_name_def)
  ultimately show ?thesis
    unfolding constraint_name_def by (metis takeWhile_sep)
qed

lemma ordem_name_inj:
  "ordem_name uc e l = ordem_name uc' e' l' \<Longrightarrow> uc = uc' \<and> e = e' \<and> l = l'"
  by (simp add: ordem_name_def)

lemma hd_ordem_name: "hd (ordem_name uc e l) = CHR ''o''"
  by (simp add: ordem_name_def)

lemma set_dict_set: "set (dict_set d k v) \<subseteq> insert (k, v) (set d)"
  by (induction d k v rule: dict_set.induct) auto

lemma set_dict_set_old:
  "distinct (map fst d) \<Longrightarrow> e \<in> set (dict_set d k v) \<Longrightarrow>
   e = (k, v) \<or> (e \<in> set d \<and> fst e \<noteq> k)"
  by (induction d k v rule: dict_set.induct) (auto split: if_splits)

lemma add_to_group_ok:
  assumes "groups_ok g" "t \<notin> group_ids g"
  shows "groups_ok (add_to_group g uc t tipo) \<and> group_ids (add_to_group g uc t tipo)
           \<subseteq> insert t (group_ids g)"
proof -
  let ?el = "case map_of g uc of None \<Rightarrow> ([], []) | Some el \<Rightarrow> el"
  let ?new = "if tipo \<in> {1, 2} then (fst ?el @ [t], snd ?el) else (fst ?el, snd ?el @ [t])"
  have g': "add_to_group g uc t tipo = dict_set g uc ?new"
    by (simp add: add_to_group_def Let_def)
  have el: "distinct (fst ?el) \<and> distinct (snd ?el) \<and> set (fst ?el) \<union> set (snd ?el) \<subseteq> group_ids g"
  proof (cases "map_of g uc")
    case None
    then show ?thesis by simp
  next
    case (Some el)
    then have in_g: "(uc, el) \<in> set g" by (rule map_of_SomeD)
    with assms(1) have "distinct (fst el) \<and> distinct (snd el)"
      unfolding groups_ok_def by fastforce
    moreover from in_g have "set (fst el) \<union> set (snd el) \<subseteq> group_ids g"
      unfolding group_ids_def by fastforce
    ultimately show ?thesis using Some by simp
  qed
  with assms(2) have new: "distinct (fst ?new) \<and> distinct (snd ?new)
      \<and> set (fst ?new) \<union> set (snd ?new) \<subseteq> insert t (group_ids g)"
    by auto
  have 1: "distinct (map fst (dict_set g uc ?new))"
    using assms(1) by (simp add: groups_ok_def distinct_keys_dict_set)
  have 2: "distinct (fst (snd e)) \<and> distinct (snd (snd e))
      \<and> set (fst (snd e)) \<union> set (snd (snd e)) \<subseteq> insert t (group_ids g)"
    if "e \<in> set (dict_set g uc ?new)" for e
  proof -
    from assms(1) have "distinct (map fst g)" by (simp add: groups_ok_def)
    from set_dict_set_old [OF this that] show ?thesis
    proof
      assume "e = (uc, ?new)"
      with new show ?thesis by simp
    next
      assume "e \<in> set g \<and> fst e \<noteq> uc"
      with assms(1) show ?thesis by (auto simp: groups_ok_def group_ids_def)
    qed
  qed
  from 1 2 show ?thesis unfolding g' groups_ok_def group_ids_def by blast
qed

lemma uc_groups_loop_ok:
  assumes "uc_groups_loop inp g kvs = Inr g'" "groups_ok g" "distinct (map fst kvs)"
    "group_ids g \<inter> fst ` set kvs = {}"
  shows "groups_ok g'"
  using assms
proof (induction kvs arbitrary: g)
  case Nil
  then show ?case by simp
next
  case (Cons kv kvs)
  from Cons.prems(1) obtain tipo where
    tipo: "map_of (turma_tipo inp) (fst kv) = Some tipo"
    and rest: "uc_groups_loop inp (add_to_group g (snd kv) (fst kv) tipo) kvs = Inr g'"
    by (auto split: option.splits)
  define K where "K = fst ` set kvs"
  define G where "G = group_ids g"
  define G' where "G' = group_ids (add_to_group g (snd kv) (fst kv) tipo)"
  from Cons.prems(4) have p4: "G \<inter> insert (fst kv) K = {}" by (simp add: K_def G_def)
  then have fresh: "fst kv \<notin> group_ids g" by (auto simp: G_def)
  from add_to_group_ok [OF Cons.prems(2) fresh, of "snd kv" tipo]
  have ok: "groups_ok (add_to_group g (snd kv) (fst kv) tipo)"
    and ids: "G' \<subseteq> insert (fst kv) G"
    by (simp_all add: G_def G'_def)
  from Cons.prems(3) have d: "distinct (map fst kvs)" and nk: "fst kv \<notin> K"
    by (simp_all add: K_def)
  from p4 ids nk have "G' \<inter> K = {}" by blast
  then have "group_ids (add_to_group g (snd kv) (fst kv) tipo) \<inter> fst ` set kvs = {}"
    by (simp add: G'_def K_def)
  from Cons.IH [OF rest ok d this] show ?case .
qed

lemma groups_ok_turma_uc:
  assumes "uc_groups_loop inp [] (turma_uc inp) = Inr g"
  shows "groups_ok g"
  using assms
proof (rule uc_groups_loop_ok)
  show "groups_ok []" by (simp add: groups_ok_def)
  show "distinct (map fst (turma_uc inp))" by (simp add: turma_uc_def distinct_dict_zip)
  show "group_ids [] \<inter> fst ` set (turma_uc inp) = {}" by (simp add: group_ids_def)
qed

lemma cnames_ordem_constraints:
  "map constraint_name (ordem_constraints g) =
     concat (map (\<lambda>e. concat (map (\<lambda>early. map (\<lambda>late. ordem_name (fst e) early late)
                                               (snd (snd e)))
                                   (fst (snd e))))
               g)"
  by (simp add: ordem_constraints_def map_concat comp_def cname_ordem)

lemma distinct_cnames_ordem:
  assumes "groups_ok g"
  shows "distinct (map constraint_name (ordem_constraints g))"
  unfolding cnames_ordem_constraints
proof (rule distinct_concat_map_key [where k = fst])
  show "distinct (map fst g)" using assms by (simp add: groups_ok_def)
next
  fix e assume e: "e \<in> set g"
  show "distinct (concat (map (\<lambda>early. map (\<lambda>late. ordem_name (fst e) early late)
                                (snd (snd e))) (fst (snd e))))"
  proof (rule distinct_concat_map_key [where k = "\<lambda>x. x"])
    show "distinct (map (\<lambda>x. x) (fst (snd e)))" using assms e by (simp add: groups_ok_def)
  next
    fix early
    have "inj_on (ordem_name (fst e) early) (set (snd (snd e)))"
      by (auto simp: inj_on_def dest: ordem_name_inj)
    with assms e show "distinct (map (\<lambda>late. ordem_name (fst e) early late) (snd (snd e)))"
      by (simp add: distinct_map groups_ok_def)
  next
    fix x y :: int assume "x \<noteq> y"
    then show "set (map (\<lambda>late. ordem_name (fst e) x late) (snd (snd e)))
        \<inter> set (map (\<lambda>late. ordem_name (fst e) y late) (snd (snd e))) = {}"
      by (auto dest: ordem_name_inj)
  qed
next
  fix e e' :: "int \<times> int list \<times> int list" assume "fst e \<noteq> fst e'"
  then show "set (concat (map (\<lambda>early. map (\<lambda>late. ordem_name (fst e) early late)
                                (snd (snd e))) (fst (snd e))))
      \<inter> set (concat (map (\<lambda>early. map (\<lambda>late. ordem_name (fst e') early late)
                                (snd (snd e'))) (fst (snd e')))) = {}"
    by (auto dest: ordem_name_inj)
qed

lemma hd_cnames_ordem:
  "n \<in> set (map constraint_name (ordem_constraints g)) \<Longrightarrow> hd n = CHR ''o''"
  unfolding cnames_ordem_constraints by (auto simp: hd_ordem_name)

lemma generate_lp_file_total:
  assumes "unidades_curriculares inp = Some frame" "uc_col_semestre frame = Some semestre"
  shows "\<exists>m. generate_lp_file ls inp = Inr m"
  using assms build_model_result [of inp ls "uc_semestre frame semestre"]
  by (auto simp: generate_lp_file_def)

lemma exemplo_runs: "\<exists>m. generate_lp_file ls exemplo = Inr m"
  by (rule generate_lp_file_total [of _ "\<lparr>uc_col_id = [3, 5, 9], uc_col_semestre = Some [1, 1, 2]\<rparr>"])
     (simp_all add: exemplo_def)

text \<open>
  C9: after any number of sections, every (teacher, period) key of
  \<^verbatim>\<open>docente_periodo_vars\<close> and every (room, period) key of \<^verbatim>\<open>sala_periodo_vars\<close> holds
  at most one variable name; so the branches \<^verbatim>\<open>len(vars_in_period) > 1\<close> of lines 321 and
  328 are never taken, the builder returns a model, and the model has no
  \<^verbatim>\<open>docente_..._conflito\<close> and no \<^verbatim>\<open>sala_..._conflito\<close> line.
\<close>

theorem C9_one_variable_per_key:
  "(\<exists>st. estado_apos ls inp sem n = Inr st \<and> uma_variavel_por_chave st)
   \<and> (\<exists>m. build_model ls inp sem = Inr m \<and> constraints_docente m = []
          \<and> constraints_sala m = [])
   \<and> (generate_lp_file ls inp = Inr m' \<longrightarrow>
          constraints_docente m' = [] \<and> constraints_sala m' = [])"
proof (intro conjI impI)
  obtain st where st: "estado_apos ls inp sem n = Inr st"
    using estado_apos_total [of ls inp sem n] by (auto simp: estado_apos_def)
  then have "inv_all ls inp sem (take n (turma_set inp)) st"
    unfolding estado_apos_def by (rule inv_all_apos)
  then have "uma_variavel_por_chave st"
    by (simp add: inv_all_def inv_vars_def pvars_ok_def uma_variavel_por_chave_def list_all_iff)
  with st show "\<exists>st. estado_apos ls inp sem n = Inr st \<and> uma_variavel_por_chave st" by blast
next
  from build_model_result [of inp ls sem]
  show "\<exists>m. build_model ls inp sem = Inr m \<and> constraints_docente m = []
          \<and> constraints_sala m = []"
    by auto
next
  assume m': "generate_lp_file ls inp = Inr m'"
  from generate_lp_file_result [OF m'] obtain frame semestre where
    "build_model ls inp (uc_semestre frame semestre) = Inr m'" by blast
  with build_model_result [of inp ls "uc_semestre frame semestre"]
  show "constraints_docente m' = []" "constraints_sala m' = []" by auto
qed

theorem C9_witness:
  "(\<exists>st. estado_apos slot_order exemplo exemplo_sem 2 = Inr st
         \<and> uma_variavel_por_chave st
         \<and> map fst (docente_periodo_vars st) = [(7, 1), (7, 2), (8, 3), (8, 4)])
   \<and> (\<exists>m. generate_lp_file slot_order exemplo = Inr m
         \<and> constraints_docente m = [] \<and> constraints_sala m = [])"
proof -
  have run: "map_sum id (\<lambda>st. map fst (docente_periodo_vars st))
               (estado_apos slot_order exemplo exemplo_sem 2) =
             Inr [(7, 1), (7, 2), (8, 3), (8, 4)]"
    by code_simp
  obtain m where m: "generate_lp_file slot_order exemplo = Inr m"
    using exemplo_runs by blast
  from C9_one_variable_per_key [of slot_order exemplo exemplo_sem 2 m] run m
  show ?thesis by (auto simp: map_sum_def split: sum.splits)
qed






lemma build_model_agendadas:
  assumes "build_model ls inp sem = Inr m"
  shows "\<exists>g st. lp_pass ls inp sem init_state (turma_set inp) = Inr st
           \<and> uc_groups_loop inp [] (turma_uc inp) = Inr g
           \<and> constraints_ordem m = ordem_constraints g
           \<and> inv_all ls inp sem (turma_set inp) st
           \<and> agendadas m = log_agendada st \<and> constraints_turmas m = lp_written st
           \<and> binary_x m = sorted_list_of_set (variables st)
           \<and> binary_z m = sorted_list_of_set (set (map z_name (salas inp)))
           \<and> constraints_ucs m = restricoes_ucs inp
           \<and> constraints_docente m = [] \<and> constraints_sala m = []"
  using build_model_result [of inp ls sem] assms by auto



lemma find_None_all: "list_all (\<lambda>x. \<not> P x) xs \<Longrightarrow> find P xs = None"
  by (induction xs) auto

lemma finite_variables:
  assumes "inv_vars st"
  shows "finite (variables st)"
proof -
  from assms have "variables st =
      (\<Union>pl \<in> set (log_agendada st). var_name (fst pl) (fst (snd pl)) ` set (snd (snd pl)))"
    by (simp add: inv_vars_def)
  then show ?thesis by simp
qed

lemma variables_placed:
  assumes "inv_vars st" "var_name t s p \<in> variables st"
  shows "\<exists>seq. (t, s, seq) \<in> set (log_agendada st) \<and> p \<in> set seq"
proof -
  from assms obtain pl q where pl: "pl \<in> set (log_agendada st)" "q \<in> set (snd (snd pl))"
    and eq: "var_name t s p = var_name (fst pl) (fst (snd pl)) q"
    by (auto simp: inv_vars_def)
  from var_name_inj [OF eq] have "t = fst pl" "s = fst (snd pl)" "p = q" by simp_all
  with pl show ?thesis by (intro exI [of _ "snd (snd pl)"]) simp
qed

lemma block_lines_apart_placement:
  assumes "t \<noteq> fst pl"
  shows "set (block_lines t s d p1 ps) \<inter> set (placement_lines inp pl) = {}"
proof (cases "placement_lines inp pl = []")
  case True
  then show ?thesis by simp
next
  case False
  then obtain q1 qs d' where
    "placement_lines inp pl = block_lines (fst pl) (fst (snd pl)) d' q1 qs"
    by (auto simp: placement_lines_def split: list.splits option.splits)
  with cnames_block_lines_apart [OF assms, of s d p1 ps "fst (snd pl)" d' q1 qs]
  show ?thesis by auto
qed

text \<open>
  C8: the builder returns a model for every input (no exception is raised), and so does
  the body of the loop for every section of \<^verbatim>\<open>turma_set\<close>. For a section that has no
  permitted room, or none of whose candidates survives the checks, the body returns the
  state as it was, and the pass goes on with the next sections from that state. In the
  model, a section that was not placed has no decision variable in the Binary block and
  none of the lines of a placement among the constraints of the sections.
\<close>

theorem C8_unplaced_section:
  "(\<exists>m. build_model ls inp sem = Inr m)
   \<and> (t \<in> set (turma_set inp) \<longrightarrow> (\<exists>st'. processar_turma ls inp sem st t = Inr st'))
   \<and> (loop_vars_of inp sem t = Inr (Some lv)
        \<and> (turma_sala ls inp t = []
            \<or> list_all (\<lambda>c. \<not> sobrevive inp sem st lv c)
                 (candidatos inp lv (turma_sala ls inp t))) \<longrightarrow>
        processar_turma ls inp sem st t = Inr st
        \<and> lp_pass ls inp sem st (t # ts) = lp_pass ls inp sem st ts)
   \<and> (generate_lp_file ls inp = Inr m \<and> t \<notin> fst ` set (agendadas m) \<longrightarrow>
        (\<forall>s p. var_name t s p \<notin> set (binary_x m))
        \<and> (\<forall>s d p1 ps. set (block_lines t s d p1 ps) \<inter> set (constraints_turmas m) = {}))"
proof (intro conjI impI allI)
  show "\<exists>m. build_model ls inp sem = Inr m"
    using build_model_result [of inp ls sem] by auto
next
  assume "t \<in> set (turma_set inp)"
  then show "\<exists>st'. processar_turma ls inp sem st t = Inr st'"
    by (rule processar_turma_total)
next
  assume a: "loop_vars_of inp sem t = Inr (Some lv)
        \<and> (turma_sala ls inp t = []
            \<or> list_all (\<lambda>c. \<not> sobrevive inp sem st lv c)
                 (candidatos inp lv (turma_sala ls inp t)))"
  then have lv: "loop_vars_of inp sem t = Inr (Some lv)" by simp
  then have t: "turma_id lv = t" by (simp add: loop_vars_of_fields)
  from a have "list_all (\<lambda>c. \<not> sobrevive inp sem st lv c)
                 (candidatos inp lv (turma_sala ls inp t))"
    by (auto simp: candidatos_def)
  then have "first_fit ls inp sem st lv = None"
    unfolding first_fit_def t by (rule find_None_all)
  then show 1: "processar_turma ls inp sem st t = Inr st"
    by (simp add: processar_turma_first_fit [OF lv])
  then show "lp_pass ls inp sem st (t # ts) = lp_pass ls inp sem st ts" by simp
next
  fix s p
  assume a: "generate_lp_file ls inp = Inr m \<and> t \<notin> fst ` set (agendadas m)"
  from a generate_lp_file_result obtain frame semestre where
    "build_model ls inp (uc_semestre frame semestre) = Inr m" by blast
  from build_model_agendadas [OF this] obtain st where
    inv: "inv_all ls inp (uc_semestre frame semestre) (turma_set inp) st"
    and ag: "agendadas m = log_agendada st"
    and bx: "binary_x m = sorted_list_of_set (variables st)" by blast
  from inv have iv: "inv_vars st" by (simp add: inv_all_def)
  show "var_name t s p \<notin> set (binary_x m)"
  proof
    assume "var_name t s p \<in> set (binary_x m)"
    with bx finite_variables [OF iv] have "var_name t s p \<in> variables st" by simp
    from variables_placed [OF iv this] ag have "t \<in> fst ` set (agendadas m)" by force
    with a show False by simp
  qed
next
  fix s d p1 ps
  assume a: "generate_lp_file ls inp = Inr m \<and> t \<notin> fst ` set (agendadas m)"
  from a generate_lp_file_result obtain frame semestre where
    "build_model ls inp (uc_semestre frame semestre) = Inr m" by blast
  from build_model_agendadas [OF this] obtain st where
    inv: "inv_all ls inp (uc_semestre frame semestre) (turma_set inp) st"
    and ag: "agendadas m = log_agendada st"
    and ct: "constraints_turmas m = lp_written st" by blast
  from inv have "lp_written st = concat (map (placement_lines inp) (log_agendada st))"
    by (simp add: inv_all_def inv_lines_def)
  moreover have "set (block_lines t s d p1 ps) \<inter> set (placement_lines inp pl) = {}"
    if "pl \<in> set (log_agendada st)" for pl
  proof -
    from that a ag have "t \<noteq> fst pl" by auto
    then show ?thesis by (rule block_lines_apart_placement)
  qed
  ultimately show "set (block_lines t s d p1 ps) \<inter> set (constraints_turmas m) = {}"
    using ct by auto
qed

theorem C8_witness:
  "(\<exists>m. build_model slot_order exemplo exemplo_sem = Inr m)
   \<and> (\<exists>st lv. estado_apos slot_order exemplo exemplo_sem 2 = Inr st
         \<and> loop_vars_of exemplo exemplo_sem 3 = Inr (Some lv)
         \<and> turma_sala slot_order exemplo 3 = [1, 2]
         \<and> list_all (\<lambda>c. \<not> sobrevive exemplo exemplo_sem st lv c)
              (candidatos exemplo lv (turma_sala slot_order exemplo 3))
         \<and> processar_turma slot_order exemplo exemplo_sem st 3 = Inr st
         \<and> lp_pass slot_order exemplo exemplo_sem st [3, 4, 5]
             = lp_pass slot_order exemplo exemplo_sem st [4, 5])
   \<and> (\<exists>st lv. estado_apos slot_order exemplo exemplo_sem 3 = Inr st
         \<and> loop_vars_of exemplo exemplo_sem 4 = Inr (Some lv)
         \<and> turma_sala slot_order exemplo 4 = []
         \<and> processar_turma slot_order exemplo exemplo_sem st 4 = Inr st)
   \<and> (\<exists>m. generate_lp_file slot_order exemplo = Inr m
         \<and> agendadas m = [(1, 1, [1, 2]), (2, 2, [3, 4])]
         \<and> binary_x m = [''x1_1_1'', ''x1_1_2'', ''x2_2_3'', ''x2_2_4'']
         \<and> (\<forall>s p. var_name 3 s p \<notin> set (binary_x m))
         \<and> (\<forall>s d p1 ps. set (block_lines 3 s d p1 ps) \<inter> set (constraints_turmas m) = {}))"
proof -
  have "case estado_apos slot_order exemplo exemplo_sem 2 of
          Inl e \<Rightarrow> False
        | Inr st \<Rightarrow>
            (case loop_vars_of exemplo exemplo_sem 3 of
               Inl e \<Rightarrow> False
             | Inr None \<Rightarrow> False
             | Inr (Some lv) \<Rightarrow>
                 turma_sala slot_order exemplo 3 = [1, 2]
                 \<and> list_all (\<lambda>c. \<not> sobrevive exemplo exemplo_sem st lv c)
                      (candidatos exemplo lv (turma_sala slot_order exemplo 3)))"
    by code_simp
  then obtain st lv where st: "estado_apos slot_order exemplo exemplo_sem 2 = Inr st"
    and lv: "loop_vars_of exemplo exemplo_sem 3 = Inr (Some lv)"
    and rooms: "turma_sala slot_order exemplo 3 = [1, 2]"
    and none: "list_all (\<lambda>c. \<not> sobrevive exemplo exemplo_sem st lv c)
                 (candidatos exemplo lv (turma_sala slot_order exemplo 3))"
    by (auto split: sum.splits option.splits)
  have "case estado_apos slot_order exemplo exemplo_sem 3 of
          Inl e \<Rightarrow> False
        | Inr st \<Rightarrow>
            (case loop_vars_of exemplo exemplo_sem 4 of
               Inl e \<Rightarrow> False
             | Inr None \<Rightarrow> False
             | Inr (Some lv) \<Rightarrow> turma_sala slot_order exemplo 4 = [])"
    by code_simp
  then obtain st4 lv4 where st4: "estado_apos slot_order exemplo exemplo_sem 3 = Inr st4"
    and lv4: "loop_vars_of exemplo exemplo_sem 4 = Inr (Some lv4)"
    and rooms4: "turma_sala slot_order exemplo 4 = []"
    by (auto split: sum.splits option.splits)
  have "map_sum id (\<lambda>m. (agendadas m, binary_x m)) (generate_lp_file slot_order exemplo)
          = Inr ([(1, 1, [1, 2]), (2, 2, [3, 4])],
                 [''x1_1_1'', ''x1_1_2'', ''x2_2_3'', ''x2_2_4''])"
    by code_simp
  then obtain m where m: "generate_lp_file slot_order exemplo = Inr m"
    and ag: "agendadas m = [(1, 1, [1, 2]), (2, 2, [3, 4])]"
    and bx: "binary_x m = [''x1_1_1'', ''x1_1_2'', ''x2_2_3'', ''x2_2_4'']"
    by (cases "generate_lp_file slot_order exemplo") auto
  from ag have un: "(3::int) \<notin> fst ` set (agendadas m)" by simp
  from C8_unplaced_section [of slot_order exemplo exemplo_sem 3 st lv "[4, 5]" m]
    st lv rooms none m un ag bx
  have A: "(\<exists>m. build_model slot_order exemplo exemplo_sem = Inr m)"
    and B: "processar_turma slot_order exemplo exemplo_sem st 3 = Inr st
         \<and> lp_pass slot_order exemplo exemplo_sem st [3, 4, 5]
             = lp_pass slot_order exemplo exemplo_sem st [4, 5]"
    and C: "(\<forall>s p. var_name 3 s p \<notin> set (binary_x m))
         \<and> (\<forall>s d p1 ps. set (block_lines 3 s d p1 ps) \<inter> set (constraints_turmas m) = {})"
    by blast+
  from C8_unplaced_section [of slot_order exemplo exemplo_sem 4 st4 lv4 "[5]" m] lv4 rooms4
  have D: "processar_turma slot_order exemplo exemplo_sem st4 4 = Inr st4" by blast
  from A B C D st lv rooms none st4 lv4 rooms4 m ag bx show ?thesis by blast
qed

lemma distinct_cnames_written:
  assumes "inv_all ls inp sem us st"
  shows "distinct (map constraint_name (lp_written st))"
proof -
  from assms have w: "lp_written st = concat (map (placement_lines inp) (log_agendada st))"
    and ids: "distinct (map fst (log_agendada st))"
    and sh: "inv_shape ls inp sem st"
    by (simp_all add: inv_all_def inv_lines_def inv_ids_def)
  have "map constraint_name (lp_written st) =
      concat (map (\<lambda>pl. map constraint_name (placement_lines inp pl)) (log_agendada st))"
    by (simp add: w map_concat comp_def)
  moreover have "distinct (concat (map (\<lambda>pl. map constraint_name (placement_lines inp pl))
      (log_agendada st)))"
  proof (rule distinct_concat_map_key [where k = fst])
    show "distinct (map fst (log_agendada st))" by (rule ids)
  next
    fix pl assume "pl \<in> set (log_agendada st)"
    with sh have "distinct (snd (snd pl))" by (rule inv_shape_distinct)
    then show "distinct (map constraint_name (placement_lines inp pl))"
      by (rule distinct_cnames_placement_lines)
  next
    fix pl pl' :: placement assume "fst pl \<noteq> fst pl'"
    then show "set (map constraint_name (placement_lines inp pl))
        \<inter> set (map constraint_name (placement_lines inp pl')) = {}"
      by (rule cnames_placement_lines_apart)
  qed
  ultimately show ?thesis by simp
qed

lemma hd_cnames_written:
  assumes "inv_all ls inp sem us st" "n \<in> set (map constraint_name (lp_written st))"
  shows "hd n \<in> {CHR ''c'', CHR ''t'', CHR ''s''}"
proof -
  from assms(1) have "lp_written st = concat (map (placement_lines inp) (log_agendada st))"
    by (simp add: inv_all_def inv_lines_def)
  with assms(2) obtain pl where "n \<in> set (map constraint_name (placement_lines inp pl))"
    by auto
  then show ?thesis by (rule hd_cnames_placement_lines)
qed

lemma distinct_cnames_model:
  assumes "build_model ls inp sem = Inr m"
  shows "distinct (map constraint_name (constraint_lines m))"
proof -
  from build_model_agendadas [OF assms] obtain g st where
    g: "uc_groups_loop inp [] (turma_uc inp) = Inr g"
    and inv: "inv_all ls inp sem (turma_set inp) st"
    and parts: "constraints_turmas m = lp_written st" "constraints_ucs m = restricoes_ucs inp"
      "constraints_ordem m = ordem_constraints g" "constraints_docente m = []"
      "constraints_sala m = []"
    by blast
  let ?A = "map constraint_name (lp_written st)"
  let ?B = "map constraint_name (restricoes_ucs inp)"
  let ?C = "map constraint_name (ordem_constraints g)"
  have A: "distinct ?A" using inv by (rule distinct_cnames_written)
  have B: "distinct ?B" by (rule distinct_cnames_restricoes_ucs)
  have C: "distinct ?C" using groups_ok_turma_uc [OF g] by (rule distinct_cnames_ordem)
  have hA: "hd n \<in> {CHR ''c'', CHR ''t'', CHR ''s''}" if "n \<in> set ?A" for n
    using inv that by (rule hd_cnames_written)
  have hB: "hd n = CHR ''r''" if "n \<in> set ?B" for n
    using that by (rule hd_cnames_restricoes_ucs)
  have hC: "hd n = CHR ''o''" if "n \<in> set ?C" for n
    using that by (rule hd_cnames_ordem)
  have AB: "set ?A \<inter> set ?B = {}" using hA hB by fastforce
  have AC: "set ?A \<inter> set ?C = {}" using hA hC by fastforce
  have BC: "set ?B \<inter> set ?C = {}" using hB hC by fastforce
  have "map constraint_name (constraint_lines m) = ?A @ ?B @ ?C"
    by (simp add: constraint_lines_def parts)
  with A B C AB AC BC show ?thesis by auto
qed

lemma distinct_binary_model:
  assumes "build_model ls inp sem = Inr m"
  shows "distinct (binary_x m @ binary_z m)"
proof -
  from build_model_agendadas [OF assms] obtain st where
    inv: "inv_all ls inp sem (turma_set inp) st"
    and bx: "binary_x m = sorted_list_of_set (variables st)"
    and bz: "binary_z m = sorted_list_of_set (set (map z_name (salas inp)))"
    by blast
  from inv have iv: "inv_vars st" by (simp add: inv_all_def)
  have fin: "finite (variables st)" using iv by (rule finite_variables)
  have "hd v = CHR ''x''" if "v \<in> variables st" for v
    using that iv by (auto simp: inv_vars_def var_name_def)
  moreover have "hd z = CHR ''z''" if "z \<in> set (map z_name (salas inp))" for z
    using that by (auto simp: z_name_def)
  ultimately have "variables st \<inter> set (map z_name (salas inp)) = {}" by fastforce
  with fin show ?thesis by (simp add: bx bz)
qed

lemma write_constraint_twice:
  "write_constraint c (write_constraint c st) = write_constraint c st"
  by (simp add: write_constraint_def)

text \<open>
  C7: in the model written for any input, no two constraint lines have the same name
  (so no constraint line is written twice), and no name is declared twice in the Binary
  block; the writer of the lines of the sections writes a text at most once.
\<close>

theorem C7_unique_names:
  "(generate_lp_file ls inp = Inr m \<longrightarrow>
      distinct (map constraint_name (constraint_lines m))
      \<and> distinct (constraint_lines m)
      \<and> distinct (binary_x m @ binary_z m))
   \<and> write_constraint c (write_constraint c st) = write_constraint c st"
proof (intro conjI impI)
  assume "generate_lp_file ls inp = Inr m"
  from generate_lp_file_result [OF this] obtain frame semestre where
    m: "build_model ls inp (uc_semestre frame semestre) = Inr m" by blast
  from m show n: "distinct (map constraint_name (constraint_lines m))"
    by (rule distinct_cnames_model)
  then show "distinct (constraint_lines m)" by (simp add: distinct_map)
  from m show "distinct (binary_x m @ binary_z m)" by (rule distinct_binary_model)
next
  show "write_constraint c (write_constraint c st) = write_constraint c st"
    by (rule write_constraint_twice)
qed

theorem C7_witness:
  "\<exists>m. generate_lp_file slot_order exemplo = Inr m
      \<and> map constraint_name (constraint_lines m) =
          [''cont_x1_1_1_x1_1_2'', ''turma_1_agendada'', ''sala_1_uso_para_turma_1'',
           ''cont_x2_2_3_x2_2_4'', ''turma_2_agendada'', ''sala_2_uso_para_turma_2'',
           ''restricao_UC3_UC5_periodo_1'', ''restricao_UC3_UC5_periodo_2'',
           ''restricao_UC3_UC5_periodo_3'', ''restricao_UC3_UC5_periodo_4'',
           ''ordem_uc_3_turma_1_3'']
      \<and> binary_x m @ binary_z m =
          [''x1_1_1'', ''x1_1_2'', ''x2_2_3'', ''x2_2_4'', ''z_1'', ''z_2'']
      \<and> distinct (map constraint_name (constraint_lines m))
      \<and> distinct (constraint_lines m)
      \<and> distinct (binary_x m @ binary_z m)"
proof -
  have a1: "map_sum id (\<lambda>m. map constraint_name (constraints_turmas m))
              (generate_lp_file slot_order exemplo) =
        Inr [''cont_x1_1_1_x1_1_2'', ''turma_1_agendada'', ''sala_1_uso_para_turma_1'',
           ''cont_x2_2_3_x2_2_4'', ''turma_2_agendada'', ''sala_2_uso_para_turma_2'']"
    by code_simp
  have a2: "map_sum id (\<lambda>m. map constraint_name (constraints_ucs m))
              (generate_lp_file slot_order exemplo) =
        Inr [''restricao_UC3_UC5_periodo_1'', ''restricao_UC3_UC5_periodo_2'',
           ''restricao_UC3_UC5_periodo_3'', ''restricao_UC3_UC5_periodo_4'']"
    by code_simp
  have a3: "map_sum id (\<lambda>m. map constraint_name (constraints_ordem m))
              (generate_lp_file slot_order exemplo) = Inr [''ordem_uc_3_turma_1_3'']"
    by code_simp
  have a4: "map_sum id (\<lambda>m. binary_x m @ binary_z m) (generate_lp_file slot_order exemplo) =
        Inr [''x1_1_1'', ''x1_1_2'', ''x2_2_3'', ''x2_2_4'', ''z_1'', ''z_2'']"
    by code_simp
  obtain m where m: "generate_lp_file slot_order exemplo = Inr m"
    using a4 by (cases "generate_lp_file slot_order exemplo") auto
  from C9_one_variable_per_key [of slot_order exemplo exemplo_sem 0 m] m
  have e: "constraints_docente m = []" "constraints_sala m = []" by simp_all
  from a1 a2 a3 e m have n: "map constraint_name (constraint_lines m) =
          [''cont_x1_1_1_x1_1_2'', ''turma_1_agendada'', ''sala_1_uso_para_turma_1'',
           ''cont_x2_2_3_x2_2_4'', ''turma_2_agendada'', ''sala_2_uso_para_turma_2'',
           ''restricao_UC3_UC5_periodo_1'', ''restricao_UC3_UC5_periodo_2'',
           ''restricao_UC3_UC5_periodo_3'', ''restricao_UC3_UC5_periodo_4'',
           ''ordem_uc_3_turma_1_3'']"
    by (simp add: constraint_lines_def)
  from a4 m have b: "binary_x m @ binary_z m =
          [''x1_1_1'', ''x1_1_2'', ''x2_2_3'', ''x2_2_4'', ''z_1'', ''z_2'']"
    by simp
  from C7_unique_names [of slot_order exemplo m] m
  have d: "distinct (map constraint_name (constraint_lines m))"
    "distinct (constraint_lines m)" "distinct (binary_x m @ binary_z m)"
    by simp_all
  show ?thesis
    by (rule exI [of _ m], intro conjI) (rule m n b d)+
qed

lemma count_list_distinct: "distinct xs \<Longrightarrow> x \<in> set xs \<Longrightarrow> count_list xs x = 1"
  by (induction xs) auto

lemma concat_map_split:
  assumes "x \<in> set xs"
  shows "\<exists>before after. concat (map f xs) = before @ f x @ after"
proof -
  from assms obtain l1 l2 where "xs = l1 @ x # l2" by (auto dest: split_list)
  then have "concat (map f xs) = concat (map f l1) @ f x @ concat (map f l2)" by simp
  then show ?thesis by blast
qed

lemma placed_duracao:
  assumes "inv_shape ls inp sem st" "pl \<in> set (log_agendada st)"
  shows "\<exists>d. map_of (turma_duracao inp) (fst pl) = Some d"
proof -
  from assms obtain lv where "loop_vars_of inp sem (fst pl) = Inr (Some lv)"
    unfolding inv_shape_def by blast
  from loop_vars_of_fields [OF this] show ?thesis by blast
qed

text \<open>
  C3: for every placement of the model over a block that starts with a period \<open>p1\<close>, the
  constraints of the sections contain, one after the other, an equality
  \<^verbatim>\<open>cont_<var1>_<vark>: <var1> - <vark> = 0\<close> for every later period of the block, the
  allocation constraint (the sum of the variables of the block equals the duration) and
  the room constraint (the sum minus duration times \<^verbatim>\<open>z_<room>\<close> is at most 0); each of
  these lines occurs once among the constraints of the model. The constraints of the
  sections are these lines for the placements in their order, and nothing else.
\<close>

theorem C3_block_constraints:
  "generate_lp_file ls inp = Inr m \<longrightarrow>
     constraints_turmas m = concat (map (placement_lines inp) (agendadas m))
     \<and> ((t, s, p1 # ps) \<in> set (agendadas m) \<longrightarrow>
          (\<exists>d before after.
             map_of (turma_duracao inp) t = Some d
             \<and> constraints_turmas m = before @ block_lines t s d p1 ps @ after
             \<and> list_all (\<lambda>line. count_list (constraint_lines m) line = 1)
                  (block_lines t s d p1 ps)))"
proof (intro impI conjI)
  assume gen: "generate_lp_file ls inp = Inr m"
  from generate_lp_file_result [OF gen] obtain frame semestre where
    m: "build_model ls inp (uc_semestre frame semestre) = Inr m" by blast
  from build_model_agendadas [OF m] obtain st where
    inv: "inv_all ls inp (uc_semestre frame semestre) (turma_set inp) st"
    and ag: "agendadas m = log_agendada st"
    and ct: "constraints_turmas m = lp_written st" by blast
  from inv have w: "lp_written st = concat (map (placement_lines inp) (log_agendada st))"
    and sh: "inv_shape ls inp (uc_semestre frame semestre) st"
    by (simp_all add: inv_all_def inv_lines_def)
  from w ct ag show all: "constraints_turmas m = concat (map (placement_lines inp) (agendadas m))"
    by simp
  assume pl: "(t, s, p1 # ps) \<in> set (agendadas m)"
  with ag placed_duracao [OF sh, of "(t, s, p1 # ps)"] obtain d where
    d: "map_of (turma_duracao inp) t = Some d" by auto
  then have lines: "placement_lines inp (t, s, p1 # ps) = block_lines t s d p1 ps"
    by (simp add: placement_lines_def)
  from concat_map_split [OF pl, of "placement_lines inp"] all lines obtain before after where
    split: "constraints_turmas m = before @ block_lines t s d p1 ps @ after" by auto
  have dist: "distinct (constraint_lines m)"
    using distinct_cnames_model [OF m] by (simp add: distinct_map)
  have "count_list (constraint_lines m) line = 1" if "line \<in> set (block_lines t s d p1 ps)"
    for line
  proof -
    from that split have "line \<in> set (constraint_lines m)"
      by (simp add: constraint_lines_def)
    with dist show ?thesis by (rule count_list_distinct)
  qed
  then have "list_all (\<lambda>line. count_list (constraint_lines m) line = 1)
      (block_lines t s d p1 ps)"
    by (simp add: list_all_iff)
  with d split show "\<exists>d before after.
             map_of (turma_duracao inp) t = Some d
             \<and> constraints_turmas m = before @ block_lines t s d p1 ps @ after
             \<and> list_all (\<lambda>line. count_list (constraint_lines m) line = 1)
                  (block_lines t s d p1 ps)"
    by blast
qed

theorem C3_witness:
  "\<exists>m. generate_lp_file slot_order exemplo = Inr m
      \<and> agendadas m = [(1, 1, [1, 2]), (2, 2, [3, 4])]
      \<and> block_lines 1 1 2 1 [2] =
           [''cont_x1_1_1_x1_1_2: x1_1_1 - x1_1_2 = 0'' @ nl,
            ''turma_1_agendada: x1_1_1 + x1_1_2 = 2'' @ nl,
            ''sala_1_uso_para_turma_1: x1_1_1 + x1_1_2 - 2 z_1 <= 0'' @ nl]
      \<and> constraints_turmas m = concat (map (placement_lines exemplo) (agendadas m))
      \<and> (\<exists>before after. constraints_turmas m = before @ block_lines 1 1 2 1 [2] @ after)
      \<and> list_all (\<lambda>line. count_list (constraint_lines m) line = 1) (block_lines 1 1 2 1 [2])"
proof -
  have a1: "map_sum id agendadas (generate_lp_file slot_order exemplo)
              = Inr [(1, 1, [1, 2]), (2, 2, [3, 4])]"
    by code_simp
  have a2: "block_lines 1 1 2 1 [2] =
           [''cont_x1_1_1_x1_1_2: x1_1_1 - x1_1_2 = 0'' @ nl,
            ''turma_1_agendada: x1_1_1 + x1_1_2 = 2'' @ nl,
            ''sala_1_uso_para_turma_1: x1_1_1 + x1_1_2 - 2 z_1 <= 0'' @ nl]"
    by code_simp
  have a3: "map_of (turma_duracao exemplo) 1 = Some 2"
    by code_simp
  from a1 obtain m where m: "generate_lp_file slot_order exemplo = Inr m"
    and ag: "agendadas m = [(1, 1, [1, 2]), (2, 2, [3, 4])]"
    by (cases "generate_lp_file slot_order exemplo") auto
  from ag have pl: "(1, 1, 1 # [2]) \<in> set (agendadas m)" by simp
  from C3_block_constraints [of slot_order exemplo m 1 1 1 "[2]"] m
  have all: "constraints_turmas m = concat (map (placement_lines exemplo) (agendadas m))"
    and ex: "(1, 1, 1 # [2]) \<in> set (agendadas m) \<longrightarrow>
          (\<exists>d before after.
             map_of (turma_duracao exemplo) 1 = Some d
             \<and> constraints_turmas m = before @ block_lines 1 1 d 1 [2] @ after
             \<and> list_all (\<lambda>line. count_list (constraint_lines m) line = 1)
                  (block_lines 1 1 d 1 [2]))"
    by blast+
  from ex pl obtain d before after where d: "map_of (turma_duracao exemplo) 1 = Some d"
    and sp0: "constraints_turmas m = before @ block_lines 1 1 d 1 [2] @ after"
    and cnt0: "list_all (\<lambda>line. count_list (constraint_lines m) line = 1)
                  (block_lines 1 1 d 1 [2])"
    by blast
  from d a3 have d2: "d = 2" by simp
  from sp0 have sp: "\<exists>before after. constraints_turmas m = before @ block_lines 1 1 2 1 [2] @ after"
    unfolding d2 by blast
  from cnt0 have cnt: "list_all (\<lambda>line. count_list (constraint_lines m) line = 1)
                (block_lines 1 1 2 1 [2])"
    unfolding d2 .
  show ?thesis
    by (rule exI [of _ m], intro conjI) (rule m ag a2 all sp cnt)+
qed











end
